theory Spec2Isabelle
  imports Main "HOL-Library.AList" "HOL-Library.Sublist" "HOL-Library.List_Lexorder"
    "HOL-Library.Char_ord" "HOL-Library.Product_Lexorder" "HOL-Library.Option_ord"
begin

section \<open>The mutable dependency graph (node-dependency-graph/src/graph.ts)\<close>

text \<open>
  A JavaScript \<open>Map\<close> is modelled by the list of its entries in iteration (insertion)
  order: \<open>map_of\<close> is \<open>get\<close>, \<open>AList.update\<close> is \<open>set\<close> (an existing key keeps its
  position, a new key is appended). An inner \<open>Map<number, "link">\<close> only carries its
  keys, so it is the list of its keys. A TypeScript non-null assertion \<open>x!\<close> on an
  absent value makes the next property access throw a \<open>TypeError\<close>; every such place
  is an error branch. \<open>Error m\<close> is \<open>throw new Error(m)\<close>, \<open>IOError\<close> a failed call of the
  \<open>fs\<close> module. A call that throws ends the run: no state is returned.
\<close>

datatype error = TypeError | Error string | IOError | OutOfFuel

record PeerLink =
  targetName :: string
  targetRange :: string
  optional :: bool

text \<open>An element of \<open>nodes[name][version]\<close>.\<close>

record node_entry =
  e_id :: nat
  e_peerDeps :: "(string \<times> nat) list"
  e_isLocal :: bool

text \<open>A value of \<open>reversedNodes\<close>.\<close>

record rnode =
  r_name :: string
  r_version :: string
  r_peerDeps :: "(string \<times> nat) list"
  r_isLocal :: bool

text \<open>
  \<open>nodes\<close> and every \<open>nodes[name]\<close> are plain objects: a key that they do not own is
  read from \<open>Object.prototype\<close>, and the key \<open>__proto__\<close> stands for \<open>Object.prototype\<close>
  itself. \<open>objectPrototype\<close> holds the enumerable properties that the calls on the
  graph have written there (their values are arrays of node entries). The other
  properties of \<open>Object.prototype\<close> are the built-in ones, \<open>builtin_keys\<close>; they are
  not enumerable. The model follows the program where no name and no version of a
  node is one of them; a statement that depends on \<open>nodes\<close> says so. It also
  follows a node named \<open>__proto__\<close>, whose version is not built-in, as long as no
  later node is named like a key written to \<open>Object.prototype\<close>.
\<close>

definition builtin_keys :: "string list" where
  "builtin_keys =
     [''__proto__'', ''constructor'', ''hasOwnProperty'', ''isPrototypeOf'',
      ''propertyIsEnumerable'', ''toLocaleString'', ''toString'', ''valueOf'',
      ''__defineGetter__'', ''__defineSetter__'', ''__lookupGetter__'', ''__lookupSetter__'']"

definition plain_key :: "string \<Rightarrow> bool" where
  "plain_key k = (k \<notin> set builtin_keys)"

record Graph =
  nodes :: "(string \<times> (string \<times> node_entry list) list) list"
  objectPrototype :: "(string \<times> node_entry list) list"
  reversedNodes :: "nat \<rightharpoonup> rnode"
  links :: "(nat \<times> nat list) list"
  reversedLinks :: "(nat \<times> nat list) list"
  nodeCounter :: nat
  peerLinks :: "(nat \<times> PeerLink list) list"

definition new_Graph :: Graph where
  "new_Graph = \<lparr>nodes = [], objectPrototype = [], reversedNodes = Map.empty, links = [], reversedLinks = [],
     nodeCounter = 0, peerLinks = []\<rparr>"

text \<open>\<open>m.get(k) || new Map()\<close> and \<open>m.get(k) || []\<close>.\<close>

definition get_or_empty :: "('k \<times> 'v list) list \<Rightarrow> 'k \<Rightarrow> 'v list" where
  "get_or_empty m k = (case map_of m k of None \<Rightarrow> [] | Some l \<Rightarrow> l)"

text \<open>\<open>inner.set(x, "link")\<close> on the key list of an inner map.\<close>

definition set_add :: "nat \<Rightarrow> nat list \<Rightarrow> nat list" where
  "set_add x xs = (if x \<in> set xs then xs else xs @ [x])"

text \<open>
  \<open>this.nodes[name]\<close>: the own property, else \<open>Object.prototype\<close> for \<open>__proto__\<close>, else
  \<open>undefined\<close>. Then \<open>[version]\<close> on that object: the own property, else the one
  inherited from \<open>Object.prototype\<close>.
\<close>

definition versions_of :: "Graph \<Rightarrow> string \<Rightarrow> (string \<times> node_entry list) list option" where
  "versions_of g name' =
     (case map_of (nodes g) name' of
        Some byVersion \<Rightarrow> Some byVersion
      | None \<Rightarrow> if name' = ''__proto__'' then Some (objectPrototype g) else None)"

definition list_of :: "Graph \<Rightarrow> (string \<times> node_entry list) list \<Rightarrow> string \<Rightarrow> node_entry list option" where
  "list_of g byVersion version' =
     (case map_of byVersion version' of
        Some list \<Rightarrow> Some list
      | None \<Rightarrow> map_of (objectPrototype g) version')"

text \<open>
  \<open>addNode\<close>: for the name \<open>__proto__\<close> the first assignment leaves \<open>nodes\<close> as it is and
  the second one writes the list to \<open>Object.prototype[version]\<close>.
\<close>

definition addNode :: "Graph \<Rightarrow> string \<Rightarrow> string \<Rightarrow> bool \<Rightarrow> Graph" where
  "addNode g name version isLocal =
     (let i = nodeCounter g;
          entry = \<lparr>e_id = i, e_peerDeps = [], e_isLocal = isLocal\<rparr>;
          g' = g\<lparr>nodeCounter := Suc i,
                 reversedNodes := (reversedNodes g)(i \<mapsto>
                   \<lparr>r_name = name, r_version = version, r_peerDeps = [], r_isLocal = isLocal\<rparr>)\<rparr>
      in if name = ''__proto__''
         then g'\<lparr>objectPrototype := AList.update version [entry] (objectPrototype g)\<rparr>
         else g'\<lparr>nodes := AList.update name
                   (AList.update version [entry] (get_or_empty (nodes g) name)) (nodes g)\<rparr>)"

text \<open>
  What \<open>peerDeps[pd]\<close> reads on a \<open>peerDeps\<close> object: a number that the object owns, the
  array inherited from \<open>Object.prototype[pd]\<close> (the same array for every object), or
  something that is neither (\<open>undefined\<close> or a built-in function).
\<close>

datatype property_value = Number nat | Inherited string | NoNumber

definition read_peerDep :: "Graph \<Rightarrow> (string \<times> nat) list \<Rightarrow> string \<Rightarrow> property_value" where
  "read_peerDep g peerDeps pd =
     (case map_of peerDeps pd of
        Some v \<Rightarrow> Number v
      | None \<Rightarrow> if pd \<in> set (map fst (objectPrototype g)) then Inherited pd else NoNumber)"

text \<open>
  The filter predicate of \<open>getVirtualNode\<close>. \<open>for (let pd in peerDeps)\<close> visits the own
  keys and then the enumerable keys inherited from \<open>Object.prototype\<close>.
\<close>

definition for_in_keys :: "Graph \<Rightarrow> (string \<times> nat) list \<Rightarrow> string list" where
  "for_in_keys g peerDeps =
     map fst peerDeps @
     filter (\<lambda>k. k \<notin> set (map fst peerDeps)) (map fst (objectPrototype g))"

definition matchesPeerDeps :: "Graph \<Rightarrow> (string \<times> nat) list \<Rightarrow> string \<Rightarrow> nat \<Rightarrow> node_entry \<Rightarrow> bool" where
  "matchesPeerDeps g peerDeps fulfilledPeerDepName fulfilledPeerDep o' =
     (if length (e_peerDeps o') \<noteq> length peerDeps + 1 then False
      else if \<exists>pd \<in> set (for_in_keys g peerDeps).
                read_peerDep g (e_peerDeps o') pd \<noteq> read_peerDep g peerDeps pd then False
      else if read_peerDep g (e_peerDeps o') fulfilledPeerDepName \<noteq> Number fulfilledPeerDep
           then False
      else True)"

definition getVirtualNode :: "Graph \<Rightarrow> nat \<Rightarrow> string \<Rightarrow> nat \<Rightarrow> error + nat option" where
  "getVirtualNode g sourceId fulfilledPeerDepName fulfilledPeerDep =
     (case reversedNodes g sourceId of
        None \<Rightarrow> Inl TypeError
      | Some oldNode \<Rightarrow>
          (case versions_of g (r_name oldNode) of
             None \<Rightarrow> Inl TypeError
           | Some byVersion \<Rightarrow>
               (case list_of g byVersion (r_version oldNode) of
                  None \<Rightarrow> Inl TypeError
                | Some list \<Rightarrow>
                    (case filter (matchesPeerDeps g (r_peerDeps oldNode)
                                    fulfilledPeerDepName fulfilledPeerDep) list of
                       [] \<Rightarrow> Inr None
                     | m # _ \<Rightarrow> Inr (Some (e_id m))))))"

text \<open>
  \<open>createVirtualNode\<close>: \<open>push\<close> changes the array that \<open>this.nodes[name][version]\<close>
  reads, be it an own property or the one on \<open>Object.prototype\<close>.
\<close>

definition push_entry :: "Graph \<Rightarrow> string \<Rightarrow> string \<Rightarrow> node_entry \<Rightarrow> Graph" where
  "push_entry g name' version' entry =
     (case map_of (nodes g) name' of
        Some byVersion \<Rightarrow>
          (case map_of byVersion version' of
             Some list \<Rightarrow>
               g\<lparr>nodes := AList.update name'
                    (AList.update version' (list @ [entry]) byVersion) (nodes g)\<rparr>
           | None \<Rightarrow>
               g\<lparr>objectPrototype := AList.update version'
                    (get_or_empty (objectPrototype g) version' @ [entry]) (objectPrototype g)\<rparr>)
      | None \<Rightarrow>
          g\<lparr>objectPrototype := AList.update version'
               (get_or_empty (objectPrototype g) version' @ [entry]) (objectPrototype g)\<rparr>)"

definition createVirtualNode :: "Graph \<Rightarrow> nat \<Rightarrow> string \<Rightarrow> nat \<Rightarrow> error + (Graph \<times> nat)" where
  "createVirtualNode g sourceId fulfilledPeerDepName fulfilledPeerDep =
     (case reversedNodes g sourceId of
        None \<Rightarrow> Inl TypeError
      | Some oldNode \<Rightarrow>
          (case versions_of g (r_name oldNode) of
             None \<Rightarrow> Inl TypeError
           | Some byVersion \<Rightarrow>
               (case list_of g byVersion (r_version oldNode) of
                  None \<Rightarrow> Inl TypeError
                | Some list \<Rightarrow>
                    (let newNodeId = nodeCounter g;
                         newPeerDeps = AList.update fulfilledPeerDepName fulfilledPeerDep
                                         (r_peerDeps oldNode);
                         g1 = push_entry g (r_name oldNode) (r_version oldNode)
                                \<lparr>e_id = newNodeId, e_peerDeps = newPeerDeps,
                                 e_isLocal = r_isLocal oldNode\<rparr>;
                         reversedNodes' = (reversedNodes g)(newNodeId \<mapsto>
                           oldNode\<lparr>r_peerDeps := newPeerDeps\<rparr>);
                         newLinks = get_or_empty (links g) sourceId;
                         reversedLinks1 = fold (\<lambda>key rl.
                             AList.update key (set_add newNodeId (get_or_empty rl key)) rl)
                           newLinks (reversedLinks g);
                         links' = AList.update newNodeId (set_add fulfilledPeerDep newLinks) (links g);
                         reversedLinks2 = AList.update fulfilledPeerDep
                           (set_add newNodeId (get_or_empty reversedLinks1 fulfilledPeerDep))
                           reversedLinks1;
                         peerDepsToCopy = filter (\<lambda>o'. targetName o' \<noteq> fulfilledPeerDepName)
                           (get_or_empty (peerLinks g) sourceId)
                     in Inr (g1\<lparr>nodeCounter := Suc newNodeId,
                               reversedNodes := reversedNodes', links := links',
                               reversedLinks := reversedLinks2,
                               peerLinks := AList.update newNodeId peerDepsToCopy (peerLinks g)\<rparr>,
                             newNodeId)))))"

definition changeChildren :: "Graph \<Rightarrow> nat \<Rightarrow> nat \<Rightarrow> nat \<Rightarrow> error + Graph" where
  "changeChildren g parentId oldChildId newChildId =
     (case map_of (links g) parentId of
        None \<Rightarrow> Inl TypeError
      | Some children \<Rightarrow>
          (case map_of (reversedLinks g) oldChildId of
             None \<Rightarrow> Inl TypeError
           | Some parents \<Rightarrow>
               (let links' = AList.update parentId
                      (set_add newChildId (removeAll oldChildId children)) (links g);
                    reversedLinks1 = AList.update oldChildId (removeAll parentId parents)
                      (reversedLinks g);
                    reversedLinks2 = AList.update newChildId
                      (set_add parentId (get_or_empty reversedLinks1 newChildId)) reversedLinks1
                in Inr (g\<lparr>links := links', reversedLinks := reversedLinks2\<rparr>))))"

definition getNodeWithoutPeerDependencies :: "Graph \<Rightarrow> string \<Rightarrow> string \<Rightarrow> error + nat option" where
  "getNodeWithoutPeerDependencies g name version =
     (case versions_of g name of
        None \<Rightarrow> Inr None
      | Some byVersion \<Rightarrow>
          (case list_of g byVersion version of
             None \<Rightarrow> Inr None
           | Some list \<Rightarrow>
               (case find (\<lambda>o'. e_peerDeps o' = []) list of
                  None \<Rightarrow> Inl TypeError
                | Some o' \<Rightarrow> Inr (Some (e_id o')))))"

definition hasPeerLink :: "Graph \<Rightarrow> nat \<Rightarrow> bool" where
  "hasPeerLink g nodeId =
     (case map_of (peerLinks g) nodeId of None \<Rightarrow> False | Some l \<Rightarrow> l \<noteq> [])"

text \<open>An element of the result of \<open>getPeerLinks\<close>, and of the resolver's queue.\<close>

record PendingPeerLink =
  p_parentId :: nat
  p_sourceId :: nat
  p_targetName :: string
  p_targetRange :: string
  p_optional :: bool

definition pending :: "nat \<Rightarrow> nat \<Rightarrow> PeerLink \<Rightarrow> PendingPeerLink" where
  "pending parent source peerLink =
     \<lparr>p_parentId = parent, p_sourceId = source, p_targetName = targetName peerLink,
      p_targetRange = targetRange peerLink, p_optional = optional peerLink\<rparr>"

text \<open>The \<open>while\<close> loop of \<open>getPeerLinks\<close> over the keys of \<open>peerLinks\<close>.\<close>

fun getPeerLinks_loop :: "Graph \<Rightarrow> nat list \<Rightarrow> PendingPeerLink list \<Rightarrow> error + PendingPeerLink list" where
  "getPeerLinks_loop g [] result = Inr result"
| "getPeerLinks_loop g (next # rest) result =
     (case reversedNodes g next of
        None \<Rightarrow> Inl TypeError
      | Some node \<Rightarrow>
          if r_isLocal node then getPeerLinks_loop g rest result
          else getPeerLinks_loop g rest
                 (result @ concat (map (\<lambda>parent.
                     map (pending parent next) (get_or_empty (peerLinks g) next))
                   (get_or_empty (reversedLinks g) next))))"

definition getPeerLinks :: "Graph \<Rightarrow> error + PendingPeerLink list" where
  "getPeerLinks g = getPeerLinks_loop g (map fst (peerLinks g)) []"

definition addPeerLink :: "Graph \<Rightarrow> nat \<Rightarrow> string \<Rightarrow> string \<Rightarrow> bool \<Rightarrow> Graph" where
  "addPeerLink g sourceId targetName' targetRange' optional' =
     g\<lparr>peerLinks := AList.update sourceId
          (get_or_empty (peerLinks g) sourceId @
             [\<lparr>targetName = targetName', targetRange = targetRange', optional = optional'\<rparr>])
          (peerLinks g)\<rparr>"

definition addLink :: "Graph \<Rightarrow> nat \<Rightarrow> nat \<Rightarrow> Graph" where
  "addLink g source target =
     g\<lparr>links := AList.update source (set_add target (get_or_empty (links g) source)) (links g),
       reversedLinks := AList.update target
          (set_add source (get_or_empty (reversedLinks g) target)) (reversedLinks g)\<rparr>"

text \<open>
  A sequence of calls on a fresh graph, stopping at the first call that throws. The
  graph is the only one of its process: \<open>Object.prototype\<close> starts without enumerable
  properties.
\<close>

datatype graph_call =
    AddNode string string bool
  | AddLink nat nat
  | AddPeerLink nat string string bool
  | CreateVirtualNode nat string nat
  | ChangeChildren nat nat nat

fun call :: "Graph \<Rightarrow> graph_call \<Rightarrow> error + Graph" where
  "call g (AddNode name version isLocal) = Inr (addNode g name version isLocal)"
| "call g (AddLink source target) = Inr (addLink g source target)"
| "call g (AddPeerLink source tn tr opt) = Inr (addPeerLink g source tn tr opt)"
| "call g (CreateVirtualNode source n t) =
     (case createVirtualNode g source n t of Inl e \<Rightarrow> Inl e | Inr (g', _) \<Rightarrow> Inr g')"
| "call g (ChangeChildren p a b) = changeChildren g p a b"

fun calls :: "Graph \<Rightarrow> graph_call list \<Rightarrow> error + Graph" where
  "calls g [] = Inr g"
| "calls g (c # cs) = (case call g c of Inl e \<Rightarrow> Inl e | Inr g' \<Rightarrow> calls g' cs)"

text \<open>\<open>inner.has(t)\<close> for \<open>inner = m.get(s)\<close>, false when \<open>m\<close> has no entry for \<open>s\<close>.\<close>

definition has_link :: "(nat \<times> nat list) list \<Rightarrow> nat \<Rightarrow> nat \<Rightarrow> bool" where
  "has_link m s t = (t \<in> set (get_or_empty m s))"


section \<open>The projection to the public graph (\<open>Graph.toJson\<close>)\<close>

text \<open>
  \<open>getReachableNodes\<close>: the \<open>waiting\<close> array is a stack (\<open>pop\<close> takes its last
  element, \<open>push\<close> appends), \<open>reached\<close> is a \<open>Set\<close>, kept here as the list of its
  elements in insertion order. The loop ends because every round either adds a new
  id to \<open>reached\<close> or shortens \<open>waiting\<close>.
\<close>

definition link_ids :: "Graph \<Rightarrow> nat set" where
  "link_ids g = (\<Union>(s, ts) \<in> set (links g). set ts)"

function getReachableNodes_loop :: "Graph \<Rightarrow> nat list \<Rightarrow> nat list \<Rightarrow> nat list" where
  "getReachableNodes_loop g waiting reached =
     (if waiting = [] then reached
      else let next = last waiting; rest = butlast waiting
           in if next \<in> set reached then getReachableNodes_loop g rest reached
              else getReachableNodes_loop g (rest @ get_or_empty (links g) next) (reached @ [next]))"
  by pat_completeness auto
termination
proof (relation "measures [\<lambda>(g, waiting, reached). card ((link_ids g \<union> set waiting) - set reached), \<lambda>(g, waiting, reached). length waiting]",
    goal_cases)
  case 1
  then show ?case by simp
next
  case (2 g waiting reached nxt rest)
  then have "set rest \<subseteq> set waiting"
    by (metis in_set_butlastD subsetI)
  then have "(link_ids g \<union> set rest) - set reached \<subseteq> (link_ids g \<union> set waiting) - set reached"
    by auto
  then have "card ((link_ids g \<union> set rest) - set reached) \<le> card ((link_ids g \<union> set waiting) - set reached)"
    by (intro card_mono) (auto simp: link_ids_def)
  then show ?case using 2 by auto
next
  case (3 g waiting reached nxt rest)
  have fin: "finite ((link_ids g \<union> set waiting) - set reached)"
    by (auto simp: link_ids_def)
  have rest: "set rest \<subseteq> set waiting"
    using 3 by (metis in_set_butlastD subsetI)
  have deps: "set (get_or_empty (links g) nxt) \<subseteq> link_ids g"
    by (cases "map_of (links g) nxt")
       (auto simp: get_or_empty_def link_ids_def dest!: map_of_SomeD)
  have nx: "nxt \<in> set waiting" using 3 by simp
  have "(link_ids g \<union> set (rest @ get_or_empty (links g) nxt)) - set (reached @ [nxt])
          \<subset> (link_ids g \<union> set waiting) - set reached"
    using rest deps nx 3(4) by auto
  then show ?case using psubset_card_mono[OF fin] by simp
qed

text \<open>All elements of \<open>nodes[name][version]\<close>, over \<open>Object.keys\<close> of both levels.\<close>

definition all_entries :: "Graph \<Rightarrow> (string \<times> string \<times> node_entry) list" where
  "all_entries g =
     concat (map (\<lambda>(name, byVersion).
        concat (map (\<lambda>(version, list). map (\<lambda>n. (name, version, n)) list) byVersion))
      (nodes g))"

definition rootIds :: "Graph \<Rightarrow> nat list" where
  "rootIds g = map (\<lambda>(name, version, n). e_id n)
                 (filter (\<lambda>(name, version, n). e_isLocal n) (all_entries g))"

definition getReachableNodes :: "Graph \<Rightarrow> nat list" where
  "getReachableNodes g = getReachableNodes_loop g (rootIds g) []"

record SortedNode =
  internalId :: nat
  s_name :: string
  s_version :: string

text \<open>
  The public shape. \<open>idMapping[x]\<close> is \<open>undefined\<close> for an id that is not a key of
  \<open>idMapping\<close>, so the ids are options (\<open>None\<close> is \<open>undefined\<close>).
\<close>

record PublicNode =
  name :: string
  version :: string
  id :: "nat option"

record PublicLink =
  sourceId :: "nat option"
  targetId :: "nat option"

record DependencyGraph =
  dg_nodes :: "PublicNode list"
  dg_links :: "PublicLink list"

text \<open>
  \<open>Array.prototype.sort\<close> is stable, and both comparators of \<open>toJson\<close> compare two
  fields with \<open><\<close> and \<open>>\<close>, the first field first: the result is the stable sort by
  the pair of the fields, \<open>sort_key\<close>. Strings compare as JavaScript compares them,
  character by character, a proper prefix first. On link ids the comparator is an
  order only where no id is \<open>undefined\<close>.
\<close>

definition sortedNodes :: "Graph \<Rightarrow> nat list \<Rightarrow> SortedNode list" where
  "sortedNodes g reachableNodes =
     sort_key (\<lambda>n. (s_name n, s_version n))
       (filter (\<lambda>o'. internalId o' \<in> set reachableNodes)
          (map (\<lambda>(name, version, n). \<lparr>internalId = e_id n, s_name = name, s_version = version\<rparr>)
             (all_entries g)))"

text \<open>\<open>.map((n, i) => ({[n.internalId]: i})).reduce((a, n) => ({...a, ...n}), {})\<close>\<close>

definition idMapping :: "SortedNode list \<Rightarrow> nat \<rightharpoonup> nat" where
  "idMapping ns =
     fold (\<lambda>(n, i) a. a(internalId n \<mapsto> i)) (zip ns [0..<length ns]) Map.empty"

definition toJson :: "Graph \<Rightarrow> DependencyGraph" where
  "toJson g =
     (let reachableNodes = getReachableNodes g;
          ns = sortedNodes g reachableNodes;
          idm = idMapping ns;
          nodes' = map (\<lambda>n. \<lparr>name = s_name n, version = s_version n, id = idm (internalId n)\<rparr>)
                     ns;
          links' = sort_key (\<lambda>l. (sourceId l, targetId l))
            (concat (map (\<lambda>source.
                 map (\<lambda>target. \<lparr>sourceId = idm source, targetId = idm target\<rparr>)
                   (get_or_empty (links g) source))
               (filter (\<lambda>k. k \<in> set reachableNodes) (map fst (links g)))))
      in \<lparr>dg_nodes = nodes', dg_links = links'\<rparr>)"

section \<open>The resolver (\<open>createDependencyGraph\<close>)\<close>

text \<open>
  A JavaScript object used as a dictionary is the list of its entries in
  \<open>Object.keys\<close> order (its keys are distinct); an optional field is an option.
\<close>

record PackageManifest =
  m_name :: string
  m_version :: string
  isLocal :: "bool option"
  dependencies :: "(string \<times> string) list option"
  devDependencies :: "(string \<times> string) list option"
  optionalDependencies :: "(string \<times> string) list option"
  peerDependencies :: "(string \<times> string) list option"
  peerDependenciesMeta :: "(string \<times> bool option) list option"

type_synonym ResolutionMap = "(string \<times> (string \<times> string) list) list"

text \<open>
  \<open>this.nodes[name][version]\<close> with \<open>version\<close> undefined reads the property called
  \<open>"undefined"\<close>.
\<close>

definition property_key :: "string option \<Rightarrow> string" where
  "property_key v = (case v of None \<Rightarrow> ''undefined'' | Some s \<Rightarrow> s)"

text \<open>
  The body of the three \<open>Object.keys(dependencies).forEach\<close> loops; they differ only
  in what happens when the target node is missing: a \<open>TypeError\<close> on \<open>targetId.id\<close>
  for \<open>dependencies\<close> and \<open>devDependencies\<close>, an early \<open>return\<close> for
  \<open>optionalDependencies\<close> (\<open>skipMissing\<close>).
\<close>

fun addDependencyLinks ::
  "bool \<Rightarrow> ResolutionMap \<Rightarrow> nat option \<Rightarrow> Graph \<Rightarrow> (string \<times> string) list \<Rightarrow> error + Graph" where
  "addDependencyLinks skipMissing resolutionMap source g [] = Inr g"
| "addDependencyLinks skipMissing resolutionMap source g ((targetName', targetRange') # rest) =
     (case map_of resolutionMap targetName' of
        None \<Rightarrow> Inl TypeError
      | Some ranges \<Rightarrow>
          (case getNodeWithoutPeerDependencies g targetName'
                  (property_key (map_of ranges targetRange')) of
             Inl e \<Rightarrow> Inl e
           | Inr None \<Rightarrow>
               if skipMissing then addDependencyLinks skipMissing resolutionMap source g rest
               else Inl TypeError
           | Inr (Some target) \<Rightarrow>
               (case source of
                  None \<Rightarrow> Inl TypeError
                | Some s \<Rightarrow>
                    addDependencyLinks skipMissing resolutionMap source (addLink g s target) rest)))"

datatype dependency_kind = Dependencies | DevDependencies | OptionalDependencies

definition addManifestLinks ::
  "dependency_kind \<Rightarrow> ResolutionMap \<Rightarrow> Graph \<Rightarrow> PackageManifest \<Rightarrow> error + Graph" where
  "addManifestLinks kind resolutionMap g m =
     (if kind = DevDependencies \<and> isLocal m \<noteq> Some True then Inr g
      else case getNodeWithoutPeerDependencies g (m_name m) (m_version m) of
         Inl e \<Rightarrow> Inl e
       | Inr source \<Rightarrow>
           (case (case kind of Dependencies \<Rightarrow> dependencies m
                             | DevDependencies \<Rightarrow> devDependencies m
                             | OptionalDependencies \<Rightarrow> optionalDependencies m) of
              None \<Rightarrow> Inr g
            | Some deps \<Rightarrow>
                addDependencyLinks (kind = OptionalDependencies) resolutionMap source g deps))"

text \<open>\<open>manifests.forEach\<close> with a body that can throw.\<close>

fun forEach :: "('s \<Rightarrow> 'a \<Rightarrow> error + 's) \<Rightarrow> 's \<Rightarrow> 'a list \<Rightarrow> error + 's" where
  "forEach f s [] = Inr s"
| "forEach f s (x # xs) = (case f s x of Inl e \<Rightarrow> Inl e | Inr s' \<Rightarrow> forEach f s' xs)"

text \<open>
  \<open>{...stars of peerDependenciesMeta, ...(m.peerDependencies || {})}\<close>: a spread keeps
  the position of a key that is already there and appends a new one.
\<close>

definition combinedPeerDependencies :: "PackageManifest \<Rightarrow> (string \<times> string) list" where
  "combinedPeerDependencies m =
     fold (\<lambda>(k, v) a. AList.update k v a)
       (case peerDependencies m of None \<Rightarrow> [] | Some p \<Rightarrow> p)
       (case peerDependenciesMeta m of
          None \<Rightarrow> []
        | Some meta \<Rightarrow> fold (\<lambda>(k, v) a. AList.update k ''*'' a) meta [])"

definition peerOptional :: "PackageManifest \<Rightarrow> string \<Rightarrow> bool" where
  "peerOptional m k =
     (case peerDependenciesMeta m of
        None \<Rightarrow> False
      | Some meta \<Rightarrow> (case map_of meta k of Some (Some True) \<Rightarrow> True | _ \<Rightarrow> False))"

fun addPeerLinks :: "PackageManifest \<Rightarrow> nat option \<Rightarrow> Graph \<Rightarrow> (string \<times> string) list \<Rightarrow> error + Graph" where
  "addPeerLinks m source g [] = Inr g"
| "addPeerLinks m source g ((k, targetRange') # rest) =
     (case source of
        None \<Rightarrow> Inl TypeError
      | Some s \<Rightarrow> addPeerLinks m source (addPeerLink g s k targetRange' (peerOptional m k)) rest)"

definition addManifestPeerLinks :: "Graph \<Rightarrow> PackageManifest \<Rightarrow> error + Graph" where
  "addManifestPeerLinks g m =
     (case getNodeWithoutPeerDependencies g (m_name m) (m_version m) of
        Inl e \<Rightarrow> Inl e
      | Inr source \<Rightarrow> addPeerLinks m source g (combinedPeerDependencies m))"

text \<open>Everything before \<open>// Resolve PeerLinks\<close>.\<close>

definition buildGraph :: "PackageManifest list \<Rightarrow> ResolutionMap \<Rightarrow> error + Graph" where
  "buildGraph manifests resolutionMap =
     (let g0 = fold (\<lambda>m g. addNode g (m_name m) (m_version m) (isLocal m = Some True))
                 manifests new_Graph
      in case forEach (addManifestLinks Dependencies resolutionMap) g0 manifests of
           Inl e \<Rightarrow> Inl e
         | Inr g1 \<Rightarrow>
        (case forEach (addManifestLinks DevDependencies resolutionMap) g1 manifests of
           Inl e \<Rightarrow> Inl e
         | Inr g2 \<Rightarrow>
        (case forEach (addManifestLinks OptionalDependencies resolutionMap) g2 manifests of
           Inl e \<Rightarrow> Inl e
         | Inr g3 \<Rightarrow> forEach addManifestPeerLinks g3 manifests)))"

datatype resolve_result = Resolved nat | Failed | Ignored | RetryLater

definition node_name :: "Graph \<Rightarrow> nat \<Rightarrow> string option" where
  "node_name g i = map_option r_name (reversedNodes g i)"

definition at_version :: "rnode \<Rightarrow> string" where
  "at_version n = r_name n @ ''@'' @ r_version n"

definition unmatching_warning :: "string \<Rightarrow> rnode \<Rightarrow> rnode \<Rightarrow> string \<Rightarrow> string \<Rightarrow> string" where
  "unmatching_warning name' source parent version' targetRange' =
     ''[WARNING] unmatching peer dependency, '' @ name' @ '' in '' @ at_version source @
     '' (parent: '' @ at_version parent @ '') was resolved to version '' @ version' @
     '' which does not satisfy the given range: '' @ targetRange'"

definition unmet_message :: "string \<Rightarrow> string \<Rightarrow> rnode \<Rightarrow> rnode \<Rightarrow> string" where
  "unmet_message level name' source parent =
     level @ '' Unmet peer dependency: '' @ name' @ '' in '' @ at_version source @
     '' (parent: '' @ at_version parent @ '')''"

text \<open>
  \<open>resolveChild\<close>, a closure over the popped queue entry. \<open>semver.satisfies\<close> belongs
  to a library outside the repository and is the parameter \<open>satisfies\<close>. The result
  comes with the lines written to \<open>console.error\<close>.
\<close>

definition resolveChild ::
  "(string \<Rightarrow> string \<Rightarrow> bool) \<Rightarrow> bool \<Rightarrow> Graph \<Rightarrow> PendingPeerLink \<Rightarrow>
     error + (resolve_result \<times> string list)" where
  "resolveChild satisfies failOnMissingPeerDependencies g peerDep =
     (let name' = p_targetName peerDep;
          children = get_or_empty (links g) (p_sourceId peerDep)
      in if \<exists>s \<in> set children. node_name g s = Some name' then Inr (Ignored, [])
         else
           let siblings = get_or_empty (links g) (p_parentId peerDep);
               candidates = siblings @ [p_parentId peerDep]
           in case filter (\<lambda>s. node_name g s = Some name') candidates of
                result # _ \<Rightarrow>
                  (case reversedNodes g result of
                     None \<Rightarrow> Inl TypeError
                   | Some r \<Rightarrow>
                       if \<not> satisfies (r_version r) (p_targetRange peerDep) then
                         (case reversedNodes g (p_parentId peerDep) of
                            None \<Rightarrow> Inl TypeError
                          | Some parent \<Rightarrow>
                              (case reversedNodes g (p_sourceId peerDep) of
                                 None \<Rightarrow> Inl TypeError
                               | Some source \<Rightarrow>
                                   Inr (Resolved result,
                                        [unmatching_warning name' source parent (r_version r)
                                           (p_targetRange peerDep)])))
                       else Inr (Resolved result, []))
              | [] \<Rightarrow>
                  if p_optional peerDep then Inr (Ignored, [])
                  else if hasPeerLink g (p_parentId peerDep) then Inr (RetryLater, [])
                  else
                    (case reversedNodes g (p_parentId peerDep) of
                       None \<Rightarrow> Inl TypeError
                     | Some parent \<Rightarrow>
                         (case reversedNodes g (p_sourceId peerDep) of
                            None \<Rightarrow> Inl TypeError
                          | Some source \<Rightarrow>
                              if failOnMissingPeerDependencies
                              then Inl (Error
                                          (unmet_message ''[ERROR]'' name' source parent))
                              else Inr (Failed,
                                        [unmet_message ''[WARNING]'' name' source parent]))))"

text \<open>The state of the \<open>while\<close> loop, with the lines written to \<open>console.error\<close>.\<close>

record resolver_state =
  graph :: Graph
  peerDeps :: "PendingPeerLink list"
  watchDog :: nat
  console :: "string list"

text \<open>One round of the loop on a non-empty queue, after the \<open>watchDog\<close> test.\<close>

definition resolveStep ::
  "(string \<Rightarrow> string \<Rightarrow> bool) \<Rightarrow> bool \<Rightarrow> resolver_state \<Rightarrow> PendingPeerLink \<Rightarrow>
     PendingPeerLink list \<Rightarrow> error + resolver_state" where
  "resolveStep satisfies failOnMissingPeerDependencies st peerDep rest =
     (let g = graph st in
      if \<not> has_link (links g) (p_parentId peerDep) (p_sourceId peerDep)
      then Inr (st\<lparr>peerDeps := rest, watchDog := length rest + 1\<rparr>)
      else case resolveChild satisfies failOnMissingPeerDependencies g peerDep of
        Inl e \<Rightarrow> Inl e
      | Inr (Resolved result, out) \<Rightarrow>
          (case getVirtualNode g (p_sourceId peerDep) (p_targetName peerDep) result of
             Inl e \<Rightarrow> Inl e
           | Inr (Some existingVirtualNode) \<Rightarrow>
               (let queue = rest @ map (pending (p_parentId peerDep) existingVirtualNode)
                                     (get_or_empty (peerLinks g) existingVirtualNode)
                in case changeChildren g (p_parentId peerDep) (p_sourceId peerDep)
                          existingVirtualNode of
                     Inl e \<Rightarrow> Inl e
                   | Inr g' \<Rightarrow> Inr \<lparr>graph = g', peerDeps = queue,
                                    watchDog = length queue + 1, console = console st @ out\<rparr>)
           | Inr None \<Rightarrow>
               (case createVirtualNode g (p_sourceId peerDep) (p_targetName peerDep) result of
                  Inl e \<Rightarrow> Inl e
                | Inr (g1, newPackageId) \<Rightarrow>
                    (let queue1 = rest @ map (pending (p_parentId peerDep) newPackageId)
                                           (get_or_empty (peerLinks g1) newPackageId);
                         queue2 = queue1 @ concat (map (\<lambda>child.
                             map (pending newPackageId child) (get_or_empty (peerLinks g1) child))
                           (get_or_empty (links g1) newPackageId))
                     in case changeChildren g1 (p_parentId peerDep) (p_sourceId peerDep)
                               newPackageId of
                          Inl e \<Rightarrow> Inl e
                        | Inr g2 \<Rightarrow> Inr \<lparr>graph = g2, peerDeps = queue2,
                                         watchDog = length queue2 + 1,
                                         console = console st @ out\<rparr>)))
      | Inr (RetryLater, out) \<Rightarrow>
          Inr (st\<lparr>peerDeps := rest @ [peerDep], watchDog := watchDog st - 1,
                  console := console st @ out\<rparr>)
      | Inr (_, out) \<Rightarrow> Inr (st\<lparr>peerDeps := rest, console := console st @ out\<rparr>))"

text \<open>
  The \<open>while\<close> loop. Nothing in the source bounds the number of rounds, so the model
  takes a bound: \<open>OutOfFuel\<close> says that the bound was reached, and nothing about the
  program.
\<close>

fun resolveLoop ::
  "nat \<Rightarrow> (string \<Rightarrow> string \<Rightarrow> bool) \<Rightarrow> bool \<Rightarrow> resolver_state \<Rightarrow> error + resolver_state" where
  "resolveLoop fuel satisfies fail st =
     (case peerDeps st of
        [] \<Rightarrow> Inr st
      | peerDep # rest \<Rightarrow>
          if watchDog st = 0 then Inr st
          else (case fuel of
                  0 \<Rightarrow> Inl OutOfFuel
                | Suc fuel' \<Rightarrow>
                    (case resolveStep satisfies fail st peerDep rest of
                       Inl e \<Rightarrow> Inl e
                     | Inr st' \<Rightarrow> resolveLoop fuel' satisfies fail st')))"

text \<open>The graph at the \<open>return graph.toJson()\<close>, with the console.\<close>

definition resolveGraph ::
  "nat \<Rightarrow> (string \<Rightarrow> string \<Rightarrow> bool) \<Rightarrow> PackageManifest list \<Rightarrow> ResolutionMap \<Rightarrow> bool option \<Rightarrow>
     error + resolver_state" where
  "resolveGraph fuel satisfies manifests resolutionMap failOnMissingPeerDependencies =
     (case buildGraph manifests resolutionMap of
        Inl e \<Rightarrow> Inl e
      | Inr g \<Rightarrow>
          (case getPeerLinks g of
             Inl e \<Rightarrow> Inl e
           | Inr queue \<Rightarrow>
               resolveLoop fuel satisfies (failOnMissingPeerDependencies \<noteq> Some False)
                 \<lparr>graph = g, peerDeps = queue, watchDog = length queue + 1, console = []\<rparr>))"

definition createDependencyGraph ::
  "nat \<Rightarrow> (string \<Rightarrow> string \<Rightarrow> bool) \<Rightarrow> PackageManifest list \<Rightarrow> ResolutionMap \<Rightarrow> bool option \<Rightarrow>
     error + (DependencyGraph \<times> string list)" where
  "createDependencyGraph fuel satisfies manifests resolutionMap failOnMissingPeerDependencies =
     (case resolveGraph fuel satisfies manifests resolutionMap failOnMissingPeerDependencies of
        Inl e \<Rightarrow> Inl e
      | Inr st \<Rightarrow> Inr (toJson (graph st), console st))"

section \<open>The installer (local-package-store/src/index.ts)\<close>

record Node =
  key :: string
  n_name :: string
  keepInPlace :: "bool option"
  bins :: "(string \<times> string) list option"
  location :: string

record Link =
  source :: string
  target :: string

record InstallGraph =
  i_nodes :: "Node list"
  i_links :: "Link list"

text \<open>
  What \<open>fs.statSync(p)\<close> finds at a path: nothing (the call throws), a regular file,
  something else that is not a directory, or a directory, given with its entries
  (\<open>fs.readdirSync(p)\<close> lists their names). Paths are POSIX paths; \<open>path.join\<close> is
  modelled on operands that need no normalisation.
\<close>

datatype fs_tree = File | Special | Dir "(string \<times> fs_tree) list"

type_synonym filesystem = "string \<Rightarrow> fs_tree option"

definition isDirectory :: "fs_tree \<Rightarrow> bool" where
  "isDirectory t = (case t of Dir _ \<Rightarrow> True | _ \<Rightarrow> False)"

definition isAbsolute :: "string \<Rightarrow> bool" where
  "isAbsolute p = (case p of [] \<Rightarrow> False | c # _ \<Rightarrow> c = CHR ''/'')"

definition join :: "string \<Rightarrow> string \<Rightarrow> string" where
  "join a b = a @ ''/'' @ b"

definition dirname :: "string \<Rightarrow> string" where
  "dirname p = rev (drop 1 (dropWhile (\<lambda>c. c \<noteq> CHR ''/'') (rev p)))"

definition quoted :: "string \<Rightarrow> string" where
  "quoted s = [CHR 0x22] @ s @ [CHR 0x22]"

definition getLocationError :: "filesystem \<Rightarrow> string \<Rightarrow> string option" where
  "getLocationError fs location' =
     (if \<not> isAbsolute location' then Some (''Location is not an absolute path: '' @ quoted location')
      else case fs location' of
        None \<Rightarrow> Some (''Location does not exist: '' @ quoted location')
      | Some stats \<Rightarrow>
          (case stats of
             Dir dir \<Rightarrow>
               if length dir > 0
               then Some (''Location is not an empty directory: '' @ quoted location')
               else None
           | _ \<Rightarrow> Some (''Location is not a directory: '' @ quoted location')))"

fun findDups :: "'a list \<Rightarrow> 'a option" where
  "findDups [] = None"
| "findDups (x # tail) = (if x \<in> set tail then Some x else findDups tail)"

text \<open>
  The name test \<open>/^(@[a-z0-9-~][a-z0-9-._~]*\/)?[a-zA-Z0-9-~][a-zA-Z0-9-._~]*$/\<close>. A
  scope, when there is one, ends at the first \<open>/\<close>, which no character class contains.
\<close>

definition lower_or_digit :: "char \<Rightarrow> bool" where
  "lower_or_digit c = (c \<in> set ''abcdefghijklmnopqrstuvwxyz0123456789'')"

definition letter_or_digit :: "char \<Rightarrow> bool" where
  "letter_or_digit c = (lower_or_digit c \<or> c \<in> set ''ABCDEFGHIJKLMNOPQRSTUVWXYZ'')"

definition unscoped_name :: "string \<Rightarrow> bool" where
  "unscoped_name s =
     (case s of
        [] \<Rightarrow> False
      | c # cs \<Rightarrow> (letter_or_digit c \<or> c \<in> set ''-~'') \<and>
                 list_all (\<lambda>d. letter_or_digit d \<or> d \<in> set ''-._~'') cs)"

definition scope_name :: "string \<Rightarrow> bool" where
  "scope_name s =
     (case s of
        [] \<Rightarrow> False
      | c # cs \<Rightarrow> (lower_or_digit c \<or> c \<in> set ''-~'') \<and>
                 list_all (\<lambda>d. lower_or_digit d \<or> d \<in> set ''-._~'') cs)"

definition validName :: "string \<Rightarrow> bool" where
  "validName s =
     (case s of
        [] \<Rightarrow> False
      | c # cs \<Rightarrow>
          if c = CHR ''@''
          then scope_name (takeWhile (\<lambda>d. d \<noteq> CHR ''/'') cs) \<and>
               (case dropWhile (\<lambda>d. d \<noteq> CHR ''/'') cs of
                  [] \<Rightarrow> False
                | _ # rest \<Rightarrow> unscoped_name rest)
          else unscoped_name s)"

text \<open>
  \<open>findDependenciesWithSameName\<close>: \<open>dependenciesMap\<close> maps a source to the set of the
  names of its targets seen so far; \<open>keyToNameMap.get(l.target)\<close> is \<open>undefined\<close> for a
  key of no node.
\<close>

definition keyToNameMap :: "InstallGraph \<Rightarrow> string \<rightharpoonup> string" where
  "keyToNameMap g = map_of (rev (map (\<lambda>n. (key n, n_name n)) (i_nodes g)))"

fun sameNameLoop ::
  "(string \<rightharpoonup> string) \<Rightarrow> (string \<times> string option list) list \<Rightarrow> Link list \<Rightarrow>
     (string \<times> string option) list" where
  "sameNameLoop names dependenciesMap [] = []"
| "sameNameLoop names dependenciesMap (l # ls) =
     (let targetName' = names (target l);
          seen = get_or_empty dependenciesMap (source l)
      in if targetName' \<in> set seen
         then (source l, targetName') # sameNameLoop names
                (AList.update (source l) seen dependenciesMap) ls
         else sameNameLoop names
                (AList.update (source l) (seen @ [targetName']) dependenciesMap) ls)"

definition findDependenciesWithSameName :: "InstallGraph \<Rightarrow> (string \<times> string option) list" where
  "findDependenciesWithSameName g = sameNameLoop (keyToNameMap g) [] (i_links g)"

definition notFolder :: "filesystem \<Rightarrow> Node \<Rightarrow> bool" where
  "notFolder fs n = (case fs (location n) of None \<Rightarrow> False | Some stats \<Rightarrow> \<not> isDirectory stats)"

definition getGraphError :: "filesystem \<Rightarrow> InstallGraph \<Rightarrow> string option" where
  "getGraphError fs g =
     (case findDups (map key (i_nodes g)) of
        Some dupKey \<Rightarrow> Some (''Multiple nodes have the following key: '' @ quoted dupKey)
      | None \<Rightarrow>
     (case filter (\<lambda>n. \<not> isAbsolute (location n)) (i_nodes g) of
        n # _ \<Rightarrow> Some (''Location of a node is not absolute: '' @ quoted (location n))
      | [] \<Rightarrow>
     (case filter (\<lambda>n. \<not> validName (n_name n)) (i_nodes g) of
        n # _ \<Rightarrow> Some (''Package name invalid: '' @ quoted (n_name n))
      | [] \<Rightarrow>
     (case filter (notFolder fs) (i_nodes g) of
        n # _ \<Rightarrow> Some (''Location of a node is not a directory: '' @ quoted (location n))
      | [] \<Rightarrow>
     (case filter (\<lambda>l. source l \<notin> set (map key (i_nodes g))) (i_links g) of
        l # _ \<Rightarrow> Some (''Invalid link source: '' @ quoted (source l))
      | [] \<Rightarrow>
     (case filter (\<lambda>l. target l \<notin> set (map key (i_nodes g))) (i_links g) of
        l # _ \<Rightarrow> Some (''Invalid link target: '' @ quoted (target l))
      | [] \<Rightarrow>
     (case findDependenciesWithSameName g of
        (s, targetName') # _ \<Rightarrow>
          Some (''Package '' @ quoted s @ '' depends on multiple packages called '' @
                quoted (property_key targetName'))
      | [] \<Rightarrow> None)))))))"

text \<open>\<open>getBinError\<close>: first the bin names, \<open>/\/|\\|\n/.test(binName)\<close>.\<close>

definition invalidBinName :: "string \<Rightarrow> bool" where
  "invalidBinName binName = (\<exists>c \<in> set binName. c = CHR ''/'' \<or> c = CHR 0x5C \<or> c = CHR 0x0A)"

definition binNames :: "Node \<Rightarrow> string list" where
  "binNames n = (case bins n of None \<Rightarrow> [] | Some b \<Rightarrow> map fst b)"

definition binNameErrors :: "Node \<Rightarrow> string list" where
  "binNameErrors n =
     map (\<lambda>binName. ''Package '' @ quoted (key n) @
            '' exposes a bin script with an invalid name: '' @ quoted binName)
       (filter invalidBinName (binNames n))"

text \<open>
  Then the collisions: \<open>binsMap\<close> and \<open>installedBinMap\<close> map a key to a \<open>Set\<close> of
  names; \<open>targetBins.forEach\<close> on a missing entry of \<open>binsMap\<close>, and
  \<open>installedBinMap.get(source)!.has\<close> on a missing entry, throw a \<open>TypeError\<close>.
\<close>

definition collision_message :: "string \<Rightarrow> string \<Rightarrow> string" where
  "collision_message binName s =
     ''Several different scripts called '' @ quoted binName @
     '' need to be installed at the same location ('' @ s @ '').''"

fun installTargetBins ::
  "bool \<Rightarrow> string \<Rightarrow> string list \<Rightarrow> string list \<times> string list \<Rightarrow> string list \<times> string list" where
  "installTargetBins ignore s [] (installed, errors) = (installed, errors)"
| "installTargetBins ignore s (binName # rest) (installed, errors) =
     installTargetBins ignore s rest
       (if binName \<in> set installed then installed else installed @ [binName],
        if binName \<in> set installed \<and> \<not> ignore
        then errors @ [collision_message binName s] else errors)"

fun binCollisions ::
  "bool \<Rightarrow> (string \<rightharpoonup> string list) \<Rightarrow> (string \<times> string list) list \<Rightarrow> string list \<Rightarrow>
     Link list \<Rightarrow> error + string list" where
  "binCollisions ignore binsMap installedBinMap errors [] = Inr errors"
| "binCollisions ignore binsMap installedBinMap errors (l # ls) =
     (case binsMap (target l) of
        None \<Rightarrow> Inl TypeError
      | Some targetBins \<Rightarrow>
          if targetBins = [] then binCollisions ignore binsMap installedBinMap errors ls
          else (case map_of installedBinMap (source l) of
                  None \<Rightarrow> Inl TypeError
                | Some installed \<Rightarrow>
                    (case installTargetBins ignore (source l) targetBins (installed, errors) of
                       (installed', errors') \<Rightarrow>
                         binCollisions ignore binsMap
                           (AList.update (source l) installed' installedBinMap) errors' ls)))"

definition getBinError :: "InstallGraph \<Rightarrow> bool option \<Rightarrow> error + string option" where
  "getBinError g ignoreBinConflicts =
     (case concat (map binNameErrors (i_nodes g)) of
        e # _ \<Rightarrow> Inr (Some e)
      | [] \<Rightarrow>
          (case binCollisions (ignoreBinConflicts = Some True)
                  (map_of (rev (map (\<lambda>n. (key n, remdups (binNames n))) (i_nodes g))))
                  (fold (\<lambda>n m. AList.update (key n) [] m) (i_nodes g) [])
                  [] (i_links g) of
             Inl e \<Rightarrow> Inl e
           | Inr [] \<Rightarrow> Inr None
           | Inr (e # _) \<Rightarrow> Inr (Some e)))"

text \<open>\<open>validateInput\<close> returns nothing; \<open>Some e\<close> is what it throws.\<close>

definition validateInput :: "filesystem \<Rightarrow> InstallGraph \<Rightarrow> string \<Rightarrow> bool option \<Rightarrow> error option" where
  "validateInput fs g location' ignoreBinConflicts =
     (case getLocationError fs location' of
        Some locationError \<Rightarrow> Some (Error locationError)
      | None \<Rightarrow>
          (case getGraphError fs g of
             Some graphError \<Rightarrow> Some (Error graphError)
           | None \<Rightarrow>
               (case getBinError g ignoreBinConflicts of
                  Inl e \<Rightarrow> Some e
                | Inr (Some binError) \<Rightarrow> Some (Error binError)
                | Inr None \<Rightarrow> None)))"

definition addSelfLinks :: "InstallGraph \<Rightarrow> InstallGraph" where
  "addSelfLinks g =
     \<lparr>i_nodes = i_nodes g,
      i_links = filter (\<lambda>link. source link \<noteq> target link) (i_links g) @
                map (\<lambda>n. \<lparr>source = key n, target = key n\<rparr>) (i_nodes g)\<rparr>"

section \<open>Condensation to components (local-package-store/src/graphToTree.ts)\<close>

record TreeNode =
  t_key :: string
  isRoot :: "bool option"

record TreeGraph =
  t_nodes :: "TreeNode list"
  t_links :: "Link list"

record Component =
  keys :: "string option list"
  c_dependencies :: "nat list"

record Tree =
  components :: "(nat \<times> Component) list"
  rootComponents :: "nat list"

text \<open>
  \<open>scc\<close> is the library \<open>strongly-connected-components\<close>, outside the repository: a
  parameter, from the adjacency lists to the components and their adjacency lists.
  An index the library returns may be any number, and a link may name a key of no
  node, so the lookups in \<open>nodeToIndex\<close> and \<open>indexToNode\<close> are options; only the
  write \<open>gr[undefined].push\<close> and the read of a missing component throw.
\<close>

type_synonym scc_library = "nat option list list \<Rightarrow> nat list list \<times> nat list list"

definition nodeToIndex :: "TreeGraph \<Rightarrow> string \<rightharpoonup> nat" where
  "nodeToIndex g = map_of (rev (zip (map t_key (t_nodes g)) [0..<length (t_nodes g)]))"

definition indexToNode :: "TreeGraph \<Rightarrow> nat \<rightharpoonup> string" where
  "indexToNode g j = (if j < length (t_nodes g) then Some (t_key (t_nodes g ! j)) else None)"

definition indexToRoot :: "TreeGraph \<Rightarrow> nat \<Rightarrow> bool" where
  "indexToRoot g j = (j < length (t_nodes g) \<and> isRoot (t_nodes g ! j) = Some True)"

fun pushLinks :: "TreeGraph \<Rightarrow> nat option list list \<Rightarrow> Link list \<Rightarrow> error + nat option list list" where
  "pushLinks g gr [] = Inr gr"
| "pushLinks g gr (link # ls) =
     (case nodeToIndex g (source link) of
        None \<Rightarrow> Inl TypeError
      | Some sourceTarget \<Rightarrow>
          pushLinks g (gr[sourceTarget := gr ! sourceTarget @ [nodeToIndex g (target link)]]) ls)"

fun pushDependencies :: "(nat \<times> Component) list \<Rightarrow> (nat \<times> nat list) list \<Rightarrow> error + (nat \<times> Component) list" where
  "pushDependencies cs [] = Inr cs"
| "pushDependencies cs ((i, c) # rest) =
     (case map_of cs i of
        None \<Rightarrow> Inl TypeError
      | Some component \<Rightarrow>
          pushDependencies
            (AList.update i (component\<lparr>c_dependencies := c_dependencies component @ c\<rparr>) cs)
            rest)"

definition convertGraphToTree :: "scc_library \<Rightarrow> TreeGraph \<Rightarrow> error + Tree" where
  "convertGraphToTree scc g =
     (case pushLinks g (map (\<lambda>_. []) (t_nodes g)) (t_links g) of
        Inl e \<Rightarrow> Inl e
      | Inr gr \<Rightarrow>
          (case scc gr of
             (comps, adjacencyList) \<Rightarrow>
               (let indexed = zip [0..<length comps] comps;
                    roots = map fst (filter (\<lambda>(j, c). \<exists>i \<in> set c. indexToRoot g i) indexed);
                    cs = fold (\<lambda>(j, c) m.
                           AList.update j \<lparr>keys = map (indexToNode g) c, c_dependencies = []\<rparr> m)
                         indexed []
                in case pushDependencies cs (zip [0..<length adjacencyList] adjacencyList) of
                     Inl e \<Rightarrow> Inl e
                   | Inr cs' \<Rightarrow> Inr \<lparr>components = cs', rootComponents = roots\<rparr>)))"

text \<open>
  \<open>runScripts\<close> passes the installer's graph to \<open>convertGraphToTree\<close>. The interface
  \<open>Node\<close> of the installer declares no \<open>isRoot\<close>, so reading \<open>n.isRoot\<close> on its nodes
  gives \<open>undefined\<close>.
\<close>

definition asTreeGraph :: "InstallGraph \<Rightarrow> TreeGraph" where
  "asTreeGraph g =
     \<lparr>t_nodes = map (\<lambda>n. \<lparr>t_key = key n, isRoot = None\<rparr>) (i_nodes g), t_links = i_links g\<rparr>"

definition runScripts_tree :: "scc_library \<Rightarrow> InstallGraph \<Rightarrow> error + Tree" where
  "runScripts_tree scc g = convertGraphToTree scc (asTreeGraph g)"

section \<open>The layout on disk (\<open>installLocalStore\<close>)\<close>

text \<open>
  The calls that change the disk or start a process, in the order in which they are
  issued when the elements of every \<open>Promise.all\<close> run one after the other in array
  order. Only \<open>readdirSync\<close> on a missing directory is modelled as a failing call.
\<close>

datatype disk_action =
    Mkdir string
  | MkdirRecursive string
  | Rimraf string
  | CopyFile string string
  | Symlink string string
  | CmdShim string string
  | Exec string string

text \<open>
  \<open>copyDir\<close>: directories are created at once, file copies are collected in
  \<open>filesActions\<close>; the exclusion list is not passed on to the recursive call.
\<close>

fun copyDir_entries :: "string \<Rightarrow> string \<Rightarrow> string list option \<Rightarrow> (string \<times> fs_tree) list \<Rightarrow>
    disk_action list \<times> (string \<times> string) list" where
  "copyDir_entries src dest exclusionList [] = ([], [])"
| "copyDir_entries src dest exclusionList ((e, t) # rest) =
     (let (made, files) =
            (case t of
               Dir sub \<Rightarrow>
                 (let (m, f) = copyDir_entries (join src e) (join dest e) None sub
                  in (Mkdir (join dest e) # m, f))
             | File \<Rightarrow>
                 (case exclusionList of
                    None \<Rightarrow> ([], [(join src e, join dest e)])
                  | Some ex \<Rightarrow> if e \<in> set ex then ([], [])
                               else ([], [(join src e, join dest e)]))
             | Special \<Rightarrow> ([], []));
          (made', files') = copyDir_entries src dest exclusionList rest
      in (made @ made', files @ files'))"

definition copyDir :: "filesystem \<Rightarrow> string \<Rightarrow> string \<Rightarrow> string list option \<Rightarrow>
    error + (disk_action list \<times> (string \<times> string) list)" where
  "copyDir fs src dest exclusionList =
     (case fs src of
        Some (Dir entries) \<Rightarrow> Inr (copyDir_entries src dest exclusionList entries)
      | _ \<Rightarrow> Inl IOError)"

definition destination :: "string \<Rightarrow> Node \<Rightarrow> string" where
  "destination location' n =
     (if keepInPlace n = Some True then location n else join location' (key n))"

text \<open>
  A loop whose body issues actions or throws: the actions issued so far are kept,
  and the first throw ends the loop.
\<close>

fun issue :: "('a \<Rightarrow> error + disk_action list) \<Rightarrow> 'a list \<Rightarrow> error option \<times> disk_action list" where
  "issue f [] = (None, [])"
| "issue f (x # xs) =
     (case f x of
        Inl e \<Rightarrow> (Some e, [])
      | Inr acts \<Rightarrow> (case issue f xs of (r, acts') \<Rightarrow> (r, acts @ acts')))"

text \<open>\<open>installNodesInStore\<close> also fills \<open>filesActions\<close> and \<open>locationMap\<close>.\<close>

fun installNodesInStore :: "filesystem \<Rightarrow> string \<Rightarrow> string list option \<Rightarrow> Node list \<Rightarrow>
    error option \<times> disk_action list \<times> (string \<times> string) list \<times> (string \<times> string) list" where
  "installNodesInStore fs location' exclusionList [] = (None, [], [], [])"
| "installNodesInStore fs location' exclusionList (n # ns) =
     (if keepInPlace n = Some True
      then (case installNodesInStore fs location' exclusionList ns of
              (r, acts, files, locationMap) \<Rightarrow>
                (r, Rimraf (join (destination location' n) ''node_modules'') # acts, files,
                 (key n, destination location' n) # locationMap))
      else (case copyDir fs (location n) (destination location' n) exclusionList of
              Inl e \<Rightarrow> (Some e, [Mkdir (destination location' n)], [], [])
            | Inr (made, files) \<Rightarrow>
                (case installNodesInStore fs location' exclusionList ns of
                   (r, acts, files', locationMap) \<Rightarrow>
                     (r, Mkdir (destination location' n) # made @ acts, files @ files',
                      (key n, destination location' n) # locationMap))))"

definition linkNodes :: "InstallGraph \<Rightarrow> (string \<rightharpoonup> string) \<Rightarrow> error option \<times> disk_action list" where
  "linkNodes g locationMap =
     issue (\<lambda>link.
        case find (\<lambda>n. key n = target link) (i_nodes g) of
          None \<Rightarrow> Inl TypeError
        | Some n \<Rightarrow>
            (case (locationMap (source link), locationMap (target link)) of
               (Some s, Some t) \<Rightarrow>
                 Inr [MkdirRecursive (dirname (join (join s ''node_modules'') (n_name n))),
                      Symlink t (join (join s ''node_modules'') (n_name n))]
             | _ \<Rightarrow> Inl TypeError))
       (i_links g)"

text \<open>
  \<open>createBins\<close>: \<open>fs.promises.stat(binLoc)\<close> looks at the disk after the copies; what it
  finds is the parameter \<open>binExists\<close>.
\<close>

definition createBins :: "(string \<Rightarrow> bool) \<Rightarrow> InstallGraph \<Rightarrow> (string \<rightharpoonup> string) \<Rightarrow>
    error option \<times> disk_action list" where
  "createBins binExists g locationMap =
     issue (\<lambda>link.
        case map_of (rev (map (\<lambda>n. (key n, bins n)) (i_nodes g))) (target link) of
          Some (Some binList) \<Rightarrow>
            (case (locationMap (source link), locationMap (target link)) of
               (Some s, Some t) \<Rightarrow>
                 Inr (MkdirRecursive (join (join s ''node_modules'') ''.bin'') #
                      map (\<lambda>(binName, binLocation).
                             CmdShim (join t binLocation)
                               (join (join (join s ''node_modules'') ''.bin'') binName))
                        (filter (\<lambda>(binName, binLocation). binExists (join t binLocation)) binList))
             | _ \<Rightarrow> Inl TypeError)
        | _ \<Rightarrow> Inr [])
       (i_links g)"

text \<open>
  \<open>runScripts\<close>: what \<open>package.json\<close> at a destination declares is the parameter
  \<open>scripts\<close> (\<open>None\<close>: no such file; else whether it has \<open>scripts.install\<close> and
  \<open>scripts.postinstall\<close>). The module \<open>treeExecutor\<close> is not part of the sources at
  hand: \<open>executeTree\<close> is the parameter that gives the components on which it calls
  the executor, in order. The second pass over \<open>graph.nodes\<close> follows.
\<close>

definition runPackageScripts :: "(string \<Rightarrow> (bool \<times> bool) option) \<Rightarrow> string \<Rightarrow> disk_action list" where
  "runPackageScripts scripts loc =
     (case scripts loc of
        None \<Rightarrow> []
      | Some (install, postinstall) \<Rightarrow>
          (if install then [Exec ''npm run install'' loc] else []) @
          (if postinstall then [Exec ''npm run postinstall'' loc] else []))"

definition executor :: "(string \<Rightarrow> (bool \<times> bool) option) \<Rightarrow> Tree \<Rightarrow> (string \<rightharpoonup> string) \<Rightarrow>
    nat \<Rightarrow> error option \<times> disk_action list" where
  "executor scripts tree locationMap component =
     (case map_of (components tree) component of
        None \<Rightarrow> (Some TypeError, [])
      | Some c \<Rightarrow>
          issue (\<lambda>k.
             case k of
               None \<Rightarrow> Inl TypeError
             | Some k' \<Rightarrow>
                 (case locationMap k' of
                    None \<Rightarrow> Inl TypeError
                  | Some loc \<Rightarrow> Inr (runPackageScripts scripts loc)))
            (keys c))"

fun executeComponents :: "(nat \<Rightarrow> error option \<times> disk_action list) \<Rightarrow> nat list \<Rightarrow>
    error option \<times> disk_action list" where
  "executeComponents ex [] = (None, [])"
| "executeComponents ex (c # cs) =
     (case ex c of
        (Some e, acts) \<Rightarrow> (Some e, acts)
      | (None, acts) \<Rightarrow> (case executeComponents ex cs of (r, acts') \<Rightarrow> (r, acts @ acts')))"

definition runScripts :: "scc_library \<Rightarrow> (Tree \<Rightarrow> nat list) \<Rightarrow> (string \<Rightarrow> (bool \<times> bool) option) \<Rightarrow>
    InstallGraph \<Rightarrow> (string \<rightharpoonup> string) \<Rightarrow> error option \<times> disk_action list" where
  "runScripts scc executeTree scripts g locationMap =
     (case runScripts_tree scc g of
        Inl e \<Rightarrow> (Some e, [])
      | Inr tree \<Rightarrow>
          (case executeComponents (executor scripts tree locationMap) (executeTree tree) of
             (Some e, acts) \<Rightarrow> (Some e, acts)
           | (None, acts) \<Rightarrow>
               (case issue (\<lambda>n.
                       case locationMap (key n) of
                         None \<Rightarrow> Inl TypeError
                       | Some loc \<Rightarrow> Inr (runPackageScripts scripts loc))
                     (i_nodes g) of
                  (r, acts') \<Rightarrow> (r, acts @ acts'))))"

record Options =
  filesToExclude :: "string list option"
  ignoreBinConflicts :: "bool option"

record environment =
  disk :: filesystem
  binExists :: "string \<Rightarrow> bool"
  scripts :: "string \<Rightarrow> (bool \<times> bool) option"
  scc :: scc_library
  executeTree :: "Tree \<Rightarrow> nat list"

text \<open>
  \<open>installLocalStore\<close>: what it throws, if anything, and the actions issued before.
  \<open>options\<close> itself is optional. Each phase is awaited before the next starts.
\<close>

definition and_then ::
  "error option \<times> disk_action list \<Rightarrow> error option \<times> disk_action list \<Rightarrow>
   error option \<times> disk_action list" where
  "and_then first second =
     (case first of
        (Some e, acts) \<Rightarrow> (Some e, acts)
      | (None, acts) \<Rightarrow> (case second of (r, acts') \<Rightarrow> (r, acts @ acts')))"

definition installLocalStore ::
  "environment \<Rightarrow> InstallGraph \<Rightarrow> string \<Rightarrow> Options option \<Rightarrow> error option \<times> disk_action list" where
  "installLocalStore env g location' options =
     (case validateInput (disk env) g location'
             (case options of None \<Rightarrow> None | Some opts \<Rightarrow> ignoreBinConflicts opts) of
        Some e \<Rightarrow> (Some e, [])
      | None \<Rightarrow>
          (case installNodesInStore (disk env) location'
                  (case options of None \<Rightarrow> None | Some opts \<Rightarrow> filesToExclude opts) (i_nodes g) of
             (r, made, filesActions, entries) \<Rightarrow>
               (let locationMap = map_of (rev entries);
                    newGraph = addSelfLinks g
                in and_then (r, made)
                  (and_then (None, map (\<lambda>(s, d). CopyFile s d) filesActions)
                  (and_then (linkNodes newGraph locationMap)
                  (and_then (createBins (binExists env) newGraph locationMap)
                     (runScripts (scc env) (executeTree env) (scripts env) newGraph
                        locationMap)))))))"

section \<open>Predicates used in the statements\<close>

text \<open>The two link indices agree.\<close>

definition consistent :: "Graph \<Rightarrow> bool" where
  "consistent g = (\<forall>s t. has_link (links g) s t = has_link (reversedLinks g) t s)"

text \<open>Every key of \<open>links\<close> is an id that \<open>nodeCounter\<close> has handed out.\<close>

definition sources_allocated :: "Graph \<Rightarrow> bool" where
  "sources_allocated g = (\<forall>k l. map_of (links g) k = Some l \<longrightarrow> k < nodeCounter g)"

text \<open>
  In a sequence of calls, every \<open>addLink\<close> has a source that \<open>addNode\<close> or
  \<open>createVirtualNode\<close> returned before (the sequence is followed while no call throws).
\<close>

fun link_sources_exist :: "Graph \<Rightarrow> graph_call list \<Rightarrow> bool" where
  "link_sources_exist g [] = True"
| "link_sources_exist g (c # cs) =
     ((case c of AddLink s t \<Rightarrow> s < nodeCounter g | _ \<Rightarrow> True) \<and>
      (case call g c of Inl e \<Rightarrow> True | Inr g' \<Rightarrow> link_sources_exist g' cs))"

text \<open>No \<open>addNode\<close> of a sequence of calls has a built-in key as name or version.\<close>

fun plain_call :: "graph_call \<Rightarrow> bool" where
  "plain_call (AddNode name' version' l) = (plain_key name' \<and> plain_key version')"
| "plain_call c = True"

text \<open>The own property \<open>nodes[name][version]\<close>, empty where there is none.\<close>

definition entries_of :: "Graph \<Rightarrow> string \<Rightarrow> string \<Rightarrow> node_entry list" where
  "entries_of g name' version' = get_or_empty (get_or_empty (nodes g) name') version'"

definition rnode_of :: "string \<Rightarrow> string \<Rightarrow> node_entry \<Rightarrow> rnode" where
  "rnode_of name' version' e =
     \<lparr>r_name = name', r_version = version', r_peerDeps = e_peerDeps e, r_isLocal = e_isLocal e\<rparr>"

text \<open>
  Nothing was written to \<open>Object.prototype\<close>, \<open>nodes\<close> and \<open>reversedNodes\<close> describe the
  same nodes, ids are below \<open>nodeCounter\<close>, and no \<open>peerDeps\<close> object has a key twice.
\<close>

definition nodes_inv :: "Graph \<Rightarrow> bool" where
  "nodes_inv g =
     (objectPrototype g = [] \<and>
      (\<forall>i n. reversedNodes g i = Some n \<longrightarrow>
          i < nodeCounter g \<and> distinct (map fst (r_peerDeps n))) \<and>
      (\<forall>name' ver e. e \<in> set (entries_of g name' ver) \<longrightarrow>
            e_id e < nodeCounter g \<and> reversedNodes g (e_id e) = Some (rnode_of name' ver e)))"

text \<open>The bins that \<open>getBinError\<close> finds for the target of a link: \<open>binsMap.get(k)\<close>.\<close>

definition target_bins :: "InstallGraph \<Rightarrow> string \<Rightarrow> string list" where
  "target_bins g k =
     get_or_empty (rev (map (\<lambda>n. (key n, remdups (binNames n))) (i_nodes g))) k"

text \<open>
  No two links of one source (two entries of \<open>graph.links\<close>) have targets that
  expose a bin of the same name.
\<close>

fun no_target_conflict :: "InstallGraph \<Rightarrow> Link list \<Rightarrow> bool" where
  "no_target_conflict g [] = True"
| "no_target_conflict g (l # ls) =
     ((\<forall>l' \<in> set ls. source l' = source l \<longrightarrow>
          set (target_bins g (target l)) \<inter> set (target_bins g (target l')) = {}) \<and>
      no_target_conflict g ls)"

text \<open>An input for the examples: a store, a package directory and a plain file.\<close>

definition example_disk :: filesystem where
  "example_disk p =
     (if p = ''/store'' then Some (Dir [])
      else if p = ''/pkg'' then Some (Dir [(''index.js'', File), (''lib'', Dir [(''x.js'', File)])])
      else if p = ''/file'' then Some File
      else None)"

definition example_environment :: environment where
  "example_environment =
     \<lparr>disk = example_disk, binExists = (\<lambda>p. True), scripts = (\<lambda>p. Some (True, False)),
      scc = (\<lambda>gr. (map (\<lambda>i. [i]) [0..<length gr], map (\<lambda>i. []) gr)),
      executeTree = rootComponents\<rparr>"

definition example_node :: "string \<Rightarrow> string \<Rightarrow> string \<Rightarrow> (string \<times> string) list option \<Rightarrow> Node" where
  "example_node k n l b = \<lparr>key = k, n_name = n, keepInPlace = None, bins = b, location = l\<rparr>"

section \<open>Notions for the properties of the resolver\<close>


text \<open>A manifest for the examples: name, version, \<open>isLocal\<close>, dependencies, peer dependencies.\<close>

definition example_manifest ::
  "string \<Rightarrow> string \<Rightarrow> bool option \<Rightarrow> (string \<times> string) list option \<Rightarrow>
   (string \<times> string) list option \<Rightarrow> PackageManifest" where
  "example_manifest n v l d p =
     \<lparr>m_name = n, m_version = v, isLocal = l, dependencies = d, devDependencies = None,
      optionalDependencies = None, peerDependencies = p, peerDependenciesMeta = None\<rparr>"

section \<open>Notions for the properties of the public graph\<close>

text \<open>The ids of the elements of \<open>nodes\<close>, and the forward links as a relation.\<close>

definition entry_ids :: "Graph \<Rightarrow> nat list" where
  "entry_ids g = map (\<lambda>(name, version, n). e_id n) (all_entries g)"

definition link_rel :: "Graph \<Rightarrow> (nat \<times> nat) set" where
  "link_rel g = {(s, t). has_link (links g) s t}"

text \<open>The links of the public graph as a relation on the public ids.\<close>

definition public_links :: "DependencyGraph \<Rightarrow> (nat option \<times> nat option) set" where
  "public_links out = (\<lambda>l. (sourceId l, targetId l)) ` set (dg_links out)"

text \<open>Some manifest with this name and version has \<open>isLocal = true\<close>.\<close>

definition local_manifest :: "PackageManifest list \<Rightarrow> string \<Rightarrow> string \<Rightarrow> bool" where
  "local_manifest manifests name' version' =
     (\<exists>m \<in> set manifests. m_name m = name' \<and> m_version m = version' \<and> isLocal m = Some True)"

text \<open>
  The inputs on which the model follows the program: no string that the resolver
  uses as a property key of a plain object (a name, a version or a range) is a
  built-in property name of \<open>Object.prototype\<close>, and none is an array index, which
  \<open>Object.keys\<close> lists before the other keys.
\<close>

definition ordinary_key :: "string \<Rightarrow> bool" where
  "ordinary_key k = (plain_key k \<and> \<not> (k \<noteq> [] \<and> list_all (\<lambda>c. c \<in> set ''0123456789'') k))"

definition ordinary_keys :: "(string \<times> 'a) list option \<Rightarrow> bool" where
  "ordinary_keys obj = (case obj of None \<Rightarrow> True | Some entries \<Rightarrow> list_all (\<lambda>(k, v). ordinary_key k) entries)"

definition ordinary_input :: "PackageManifest list \<Rightarrow> ResolutionMap \<Rightarrow> bool" where
  "ordinary_input manifests resolutionMap =
     (list_all (\<lambda>m. ordinary_key (m_name m) \<and> ordinary_key (m_version m) \<and>
                    ordinary_keys (dependencies m) \<and> ordinary_keys (devDependencies m) \<and>
                    ordinary_keys (optionalDependencies m) \<and> ordinary_keys (peerDependencies m) \<and>
                    ordinary_keys (peerDependenciesMeta m)) manifests \<and>
      list_all (\<lambda>(name', ranges). ordinary_key name' \<and>
                    list_all (\<lambda>(range', version'). ordinary_key range' \<and> ordinary_key version') ranges)
        resolutionMap)"

text \<open>
  What holds of the graph in every round of the resolver: \<open>nodes\<close> and \<open>reversedNodes\<close>
  agree, no id is twice in \<open>nodes\<close>, a local node has the name and version of a local
  manifest, and both ends of every link are ids in \<open>nodes\<close>.
\<close>

definition resolver_inv :: "PackageManifest list \<Rightarrow> Graph \<Rightarrow> bool" where
  "resolver_inv manifests g =
     (nodes_inv g \<and> distinct (entry_ids g) \<and>
      (\<forall>(name', version', e) \<in> set (all_entries g).
          e_id e < nodeCounter g \<and> (e_isLocal e \<longrightarrow> local_manifest manifests name' version')) \<and>
      (\<forall>i r. reversedNodes g i = Some r \<longrightarrow> r_isLocal r \<longrightarrow>
          local_manifest manifests (r_name r) (r_version r)) \<and>
      (\<forall>s t. has_link (links g) s t \<longrightarrow> s \<in> set (entry_ids g) \<and> t \<in> set (entry_ids g)))"

section \<open>Properties of the mutable graph\<close>

lemma get_or_empty_update [simp]:
  "get_or_empty (AList.update k v m) k' = (if k' = k then v else get_or_empty m k')"
  by (simp add: get_or_empty_def update_conv')

lemma get_or_empty_Some: "map_of m k = Some l \<Longrightarrow> get_or_empty m k = l"
  by (simp add: get_or_empty_def)

lemma set_set_add [simp]: "set (set_add x xs) = insert x (set xs)"
  by (auto simp: set_add_def)

lemma has_link_update [simp]:
  "has_link (AList.update k v m) s t = (if s = k then t \<in> set v else has_link m s t)"
  by (simp add: has_link_def)

lemma mem_get_or_empty: "x \<in> set (get_or_empty m k) \<longleftrightarrow> has_link m k x"
  by (simp add: has_link_def)

lemma has_link_key: "has_link m s t \<Longrightarrow> \<exists>l. map_of m s = Some l"
  by (cases "map_of m s") (auto simp: has_link_def get_or_empty_def)

lemma has_link_fold_add:
  "has_link (fold (\<lambda>key rl. AList.update key (set_add n (get_or_empty rl key)) rl) ks rl0) t s
     = (has_link rl0 t s \<or> (s = n \<and> t \<in> set ks))"
  by (induction ks arbitrary: rl0) (auto simp: has_link_def)

subsection \<open>The forward and the reverse index\<close>

lemma consistent_addLink: "consistent g \<Longrightarrow> consistent (addLink g s t)"
  by (auto simp: consistent_def addLink_def has_link_def)

lemma push_entry_fields [simp]:
  "links (push_entry g n v e) = links g"
  "reversedLinks (push_entry g n v e) = reversedLinks g"
  "nodeCounter (push_entry g n v e) = nodeCounter g"
  "peerLinks (push_entry g n v e) = peerLinks g"
  "reversedNodes (push_entry g n v e) = reversedNodes g"
  by (simp_all add: push_entry_def split: option.splits)

lemma addNode_fields [simp]:
  "links (addNode g n v l) = links g"
  "reversedLinks (addNode g n v l) = reversedLinks g"
  "nodeCounter (addNode g n v l) = Suc (nodeCounter g)"
  "peerLinks (addNode g n v l) = peerLinks g"
  "reversedNodes (addNode g n v l) = (reversedNodes g)(nodeCounter g \<mapsto>
      \<lparr>r_name = n, r_version = v, r_peerDeps = [], r_isLocal = l\<rparr>)"
  by (simp_all add: addNode_def Let_def)

lemma consistent_addNode: "consistent g \<Longrightarrow> consistent (addNode g n v l)"
  by (simp add: consistent_def)

lemma consistent_addPeerLink: "consistent g \<Longrightarrow> consistent (addPeerLink g s n r opt)"
  by (simp add: consistent_def addPeerLink_def)

lemma consistent_changeChildren:
  assumes "consistent g" and "changeChildren g p a b = Inr g'"
  shows "consistent g'"
proof -
  from assms(2) obtain children parents where
    c: "map_of (links g) p = Some children" and r: "map_of (reversedLinks g) a = Some parents"
    by (auto simp: changeChildren_def split: option.splits)
  have g': "g' = g\<lparr>links := AList.update p (set_add b (removeAll a children)) (links g),
      reversedLinks := AList.update b (set_add p (get_or_empty
         (AList.update a (removeAll p parents) (reversedLinks g)) b))
         (AList.update a (removeAll p parents) (reversedLinks g))\<rparr>"
    using assms(2) c r by (simp add: changeChildren_def Let_def)
  have cs: "set children = {t. has_link (links g) p t}"
    using c by (simp add: has_link_def get_or_empty_Some)
  have ps: "set parents = {s. has_link (reversedLinks g) a s}"
    using r by (simp add: has_link_def get_or_empty_Some)
  have inv: "\<And>s t. has_link (links g) s t = has_link (reversedLinks g) t s"
    using assms(1) by (simp add: consistent_def)
  show ?thesis
    unfolding consistent_def g'
    by (auto simp: cs ps inv) (auto simp: has_link_def)
qed

lemma createVirtualNode_links_eq:
  "createVirtualNode g s n t = Inr (g', i) \<Longrightarrow>
     links g' = AList.update (nodeCounter g) (set_add t (get_or_empty (links g) s)) (links g)"
  by (auto simp: createVirtualNode_def Let_def split: option.splits)

lemma createVirtualNode_reversedLinks_eq:
  "createVirtualNode g s n t = Inr (g', i) \<Longrightarrow>
     reversedLinks g' =
       (let r1 = fold (\<lambda>key rl. AList.update key (set_add (nodeCounter g) (get_or_empty rl key)) rl)
                   (get_or_empty (links g) s) (reversedLinks g)
        in AList.update t (set_add (nodeCounter g) (get_or_empty r1 t)) r1)"
  by (auto simp: createVirtualNode_def Let_def split: option.splits)

lemma createVirtualNode_links:
  assumes "createVirtualNode g s n t = Inr (g', i)"
  shows "has_link (links g') a b =
           (if a = nodeCounter g then b = t \<or> has_link (links g) s b else has_link (links g) a b)"
    and "has_link (reversedLinks g') b a =
           (has_link (reversedLinks g) b a \<or> a = nodeCounter g \<and> (b = t \<or> has_link (links g) s b))"
proof -
  show "has_link (links g') a b =
           (if a = nodeCounter g then b = t \<or> has_link (links g) s b else has_link (links g) a b)"
    by (simp add: createVirtualNode_links_eq[OF assms] mem_get_or_empty)
  show "has_link (reversedLinks g') b a =
           (has_link (reversedLinks g) b a \<or> a = nodeCounter g \<and> (b = t \<or> has_link (links g) s b))"
    by (auto simp: createVirtualNode_reversedLinks_eq[OF assms] Let_def mem_get_or_empty
          has_link_fold_add)
qed

lemma consistent_createVirtualNode:
  assumes "consistent g" and sa: "sources_allocated g"
    and cv: "createVirtualNode g s n t = Inr (g', i)"
  shows "consistent g'"
proof -
  have inv: "\<And>s t. has_link (reversedLinks g) t s = has_link (links g) s t"
    using assms(1) by (simp add: consistent_def)
  have fresh: "\<And>x. \<not> has_link (links g) (nodeCounter g) x"
    using sa has_link_key[of "links g" "nodeCounter g"] by (fastforce simp: sources_allocated_def)
  show ?thesis
    unfolding consistent_def createVirtualNode_links[OF cv] inv
    using fresh by auto
qed

lemma sources_allocated_createVirtualNode:
  "sources_allocated g \<Longrightarrow> createVirtualNode g s n t = Inr (g', i) \<Longrightarrow> sources_allocated g'"
  by (auto simp: sources_allocated_def createVirtualNode_def Let_def update_conv' less_Suc_eq
      split: option.splits if_splits)

lemma sources_allocated_changeChildren:
  "sources_allocated g \<Longrightarrow> changeChildren g p a b = Inr g' \<Longrightarrow> sources_allocated g'"
  by (auto simp: sources_allocated_def changeChildren_def Let_def update_conv'
      split: option.splits if_splits)

lemma sources_allocated_addLink:
  "sources_allocated g \<Longrightarrow> s < nodeCounter g \<Longrightarrow> sources_allocated (addLink g s t)"
  by (auto simp: sources_allocated_def addLink_def update_conv' split: if_splits)

lemma sources_allocated_addNode:
  "sources_allocated g \<Longrightarrow> sources_allocated (addNode g n v l)"
  by (auto simp: sources_allocated_def less_Suc_eq)

lemma sources_allocated_addPeerLink:
  "sources_allocated g \<Longrightarrow> sources_allocated (addPeerLink g s n r opt)"
  by (auto simp: sources_allocated_def addPeerLink_def)

lemma index_inv_call:
  assumes inv: "consistent g \<and> sources_allocated g" and c: "call g c = Inr g'"
    and src: "case c of AddLink s t \<Rightarrow> s < nodeCounter g | _ \<Rightarrow> True"
  shows "consistent g' \<and> sources_allocated g'"
proof (cases c)
  case (AddNode n v l)
  then show ?thesis
    using inv c consistent_addNode sources_allocated_addNode by auto
next
  case (AddLink s t)
  then show ?thesis
    using inv c src consistent_addLink sources_allocated_addLink by auto
next
  case (AddPeerLink s n r opt)
  then show ?thesis
    using inv c consistent_addPeerLink sources_allocated_addPeerLink by auto
next
  case (CreateVirtualNode s n t)
  then obtain i where cv: "createVirtualNode g s n t = Inr (g', i)"
    using c by (auto split: sum.splits)
  show ?thesis
    using inv consistent_createVirtualNode[OF _ _ cv] sources_allocated_createVirtualNode[OF _ cv]
    by blast
next
  case (ChangeChildren p a b)
  then have cc: "changeChildren g p a b = Inr g'" using c by simp
  show ?thesis
    using inv consistent_changeChildren[OF _ cc] sources_allocated_changeChildren[OF _ cc]
    by blast
qed

lemma index_inv_calls:
  "consistent g \<and> sources_allocated g \<Longrightarrow> calls g cs = Inr g' \<Longrightarrow> link_sources_exist g cs \<Longrightarrow>
   consistent g' \<and> sources_allocated g'"
proof (induction cs arbitrary: g)
  case Nil
  then show ?case by simp
next
  case (Cons c cs)
  from Cons.prems(2) obtain g1 where c: "call g c = Inr g1" and cs: "calls g1 cs = Inr g'"
    by (auto split: sum.splits)
  have "consistent g1 \<and> sources_allocated g1"
    using index_inv_call[OF Cons.prems(1) c] Cons.prems(3) by simp
  moreover have "link_sources_exist g1 cs" using Cons.prems(3) c by simp
  ultimately show ?case using Cons.IH cs by blast
qed

lemma index_inv_new: "consistent new_Graph \<and> sources_allocated new_Graph"
  by (simp add: consistent_def sources_allocated_def new_Graph_def has_link_def get_or_empty_def)

lemmas graph_eval =
  new_Graph_def addNode_def addLink_def addPeerLink_def createVirtualNode_def changeChildren_def
  getVirtualNode_def matchesPeerDeps_def versions_of_def list_of_def push_entry_def
  for_in_keys_def read_peerDep_def Let_def get_or_empty_def set_add_def has_link_def

text \<open>
  C6, as the claim states it, for any sequence of calls: it fails. \<open>addLink(1, 7)\<close> on
  the empty graph, \<open>addNode("A", "1", false)\<close> (id 0), then
  \<open>createVirtualNode(0, "x", 3)\<close>: the new node gets id 1, \<open>links.set(1, newLinks)\<close>
  replaces the entry \<open>links[1] = {7}\<close> by \<open>{3}\<close>, and \<open>reversedLinks[7]\<close> still holds 1.
  No call throws.
\<close>

theorem reverse_index_counterexample:
  "case calls new_Graph [AddLink 1 7, AddNode ''A'' ''1'' False, CreateVirtualNode 0 ''x'' 3] of
     Inl e \<Rightarrow> False
   | Inr g \<Rightarrow> has_link (reversedLinks g) 7 1 \<and> \<not> has_link (links g) 1 7"
  by (simp add: graph_eval)

text \<open>
  C6, amended: for every state reached from the empty graph by a sequence of
  \<open>addNode\<close>, \<open>addLink\<close>, \<open>addPeerLink\<close>, \<open>createVirtualNode\<close> and \<open>changeChildren\<close> calls
  that all return, in which the source of every \<open>addLink\<close> is the id of a node added
  before (as in the resolver, which links only ids it got from the graph), target
  \<open>t\<close> is in \<open>links[s]\<close> if and only if source \<open>s\<close> is in \<open>reversedLinks[t]\<close>.
\<close>

theorem reverse_index_consistent:
  assumes "calls new_Graph cs = Inr g" and "link_sources_exist new_Graph cs"
  shows "has_link (links g) s t = has_link (reversedLinks g) t s"
  using index_inv_calls[OF index_inv_new assms] by (simp add: consistent_def)

theorem reverse_index_consistent_witness:
  "link_sources_exist new_Graph
     [AddNode ''A'' ''1'' True, AddNode ''B'' ''1'' False, AddLink 0 1,
      AddPeerLink 1 ''X'' ''*'' False, CreateVirtualNode 1 ''X'' 0, ChangeChildren 0 1 2] \<and>
   (case calls new_Graph
      [AddNode ''A'' ''1'' True, AddNode ''B'' ''1'' False, AddLink 0 1,
       AddPeerLink 1 ''X'' ''*'' False, CreateVirtualNode 1 ''X'' 0, ChangeChildren 0 1 2] of
      Inl e \<Rightarrow> False
    | Inr g \<Rightarrow> has_link (links g) 0 2 \<and> has_link (reversedLinks g) 2 0 \<and>
               \<not> has_link (links g) 0 1 \<and> \<not> has_link (reversedLinks g) 1 0)"
proof -
  define cs where "cs = [AddNode ''A'' ''1'' True, AddNode ''B'' ''1'' False, AddLink 0 1,
      AddPeerLink 1 ''X'' ''*'' False, CreateVirtualNode 1 ''X'' 0, ChangeChildren 0 1 2]"
  define g where "g = projr (calls new_Graph cs)"
  have ok: "link_sources_exist new_Graph cs"
    by (simp add: cs_def graph_eval)
  have run: "calls new_Graph cs = Inr g"
    by (simp add: g_def cs_def graph_eval)
  have fwd: "has_link (links g) 0 2" "\<not> has_link (links g) 0 1"
    by (simp_all add: g_def cs_def graph_eval)
  have "has_link (reversedLinks g) 2 0" "\<not> has_link (reversedLinks g) 1 0"
    using fwd reverse_index_consistent[OF run ok] by simp_all
  then show ?thesis unfolding cs_def[symmetric] using ok run fwd by simp
qed

subsection \<open>Virtual nodes\<close>

lemma nodes_invD:
  assumes "nodes_inv g"
  shows "objectPrototype g = []"
    and "reversedNodes g i = Some n \<Longrightarrow> distinct (map fst (r_peerDeps n))"
    and "reversedNodes g i = Some n \<Longrightarrow> i < nodeCounter g"
    and "e \<in> set (entries_of g nm ver) \<Longrightarrow> e_id e < nodeCounter g"
    and "e \<in> set (entries_of g nm ver) \<Longrightarrow> reversedNodes g (e_id e) = Some (rnode_of nm ver e)"
  using assms unfolding nodes_inv_def by blast+

lemma nodes_inv_new: "nodes_inv new_Graph"
  by (simp add: nodes_inv_def new_Graph_def entries_of_def get_or_empty_def)

lemma nodes_inv_addLink: "nodes_inv g \<Longrightarrow> nodes_inv (addLink g s t)"
  by (simp add: nodes_inv_def addLink_def entries_of_def)

lemma nodes_inv_addPeerLink: "nodes_inv g \<Longrightarrow> nodes_inv (addPeerLink g s n r opt)"
  by (simp add: nodes_inv_def addPeerLink_def entries_of_def)

lemma nodes_inv_changeChildren: "nodes_inv g \<Longrightarrow> changeChildren g p a b = Inr g' \<Longrightarrow> nodes_inv g'"
  by (auto simp: nodes_inv_def changeChildren_def Let_def entries_of_def split: option.splits)

lemma plain_not_proto: "plain_key k \<Longrightarrow> k \<noteq> ''__proto__''"
  by (auto simp: plain_key_def builtin_keys_def)

lemma entries_of_addNode:
  "nm0 \<noteq> ''__proto__'' \<Longrightarrow> entries_of (addNode g nm0 ver0 l) nm ver =
     (if nm = nm0 \<and> ver = ver0 then [\<lparr>e_id = nodeCounter g, e_peerDeps = [], e_isLocal = l\<rparr>]
      else entries_of g nm ver)"
  by (simp add: entries_of_def addNode_def Let_def)

lemma objectPrototype_addNode:
  "nm0 \<noteq> ''__proto__'' \<Longrightarrow> objectPrototype (addNode g nm0 ver0 l) = objectPrototype g"
  by (simp add: addNode_def Let_def)

lemma nodes_inv_addNode:
  assumes "nodes_inv g" and p: "nm0 \<noteq> ''__proto__''"
  shows "nodes_inv (addNode g nm0 ver0 l)"
proof -
  have neq: "\<And>e nm ver. e \<in> set (entries_of g nm ver) \<Longrightarrow> e_id e \<noteq> nodeCounter g"
    using nodes_invD(4)[OF assms(1)] by fastforce
  show ?thesis
    unfolding nodes_inv_def entries_of_addNode[OF p] objectPrototype_addNode[OF p]
    by (auto simp: rnode_of_def less_Suc_eq nodes_invD(5)[OF assms(1)] neq nodes_invD(1)[OF assms(1)]
        dest: nodes_invD(2)[OF assms(1)] nodes_invD(3)[OF assms(1)] nodes_invD(4)[OF assms(1)]
        split: if_splits)
qed

lemma createVirtualNode_cases:
  assumes "createVirtualNode g s n t = Inr (g', i)" and "objectPrototype g = []"
  obtains old where "reversedNodes g s = Some old"
    and "i = nodeCounter g" and "nodeCounter g' = Suc (nodeCounter g)"
    and "reversedNodes g' = (reversedNodes g)(nodeCounter g \<mapsto>
                 old\<lparr>r_peerDeps := AList.update n t (r_peerDeps old)\<rparr>)"
    and "\<And>nm ver. entries_of g' nm ver =
           (if nm = r_name old \<and> ver = r_version old
            then entries_of g nm ver @ [\<lparr>e_id = nodeCounter g,
                   e_peerDeps = AList.update n t (r_peerDeps old), e_isLocal = r_isLocal old\<rparr>]
            else entries_of g nm ver)"
    and "objectPrototype g' = []"
    and "versions_of g' (r_name old) = Some (get_or_empty (nodes g') (r_name old))"
    and "list_of g' (get_or_empty (nodes g') (r_name old)) (r_version old) =
           Some (entries_of g' (r_name old) (r_version old))"
proof -
  from assms obtain old bv l where old: "reversedNodes g s = Some old"
    and bv: "versions_of g (r_name old) = Some bv" and l: "list_of g bv (r_version old) = Some l"
    by (auto simp: createVirtualNode_def split: option.splits)
  have l': "map_of bv (r_version old) = Some l"
    using l assms(2) by (auto simp: list_of_def split: option.splits)
  have own: "map_of (nodes g) (r_name old) = Some bv"
    using bv l' assms(2) by (auto simp: versions_of_def split: option.splits if_splits)
  define new where "new = \<lparr>e_id = nodeCounter g,
      e_peerDeps = AList.update n t (r_peerDeps old), e_isLocal = r_isLocal old\<rparr>"
  have pe: "push_entry g (r_name old) (r_version old) new =
      g\<lparr>nodes := AList.update (r_name old) (AList.update (r_version old) (l @ [new]) bv) (nodes g)\<rparr>"
    by (simp add: push_entry_def own l')
  have g': "g' = (push_entry g (r_name old) (r_version old) new)\<lparr>nodeCounter := Suc (nodeCounter g),
       reversedNodes := (reversedNodes g)(nodeCounter g \<mapsto> old\<lparr>r_peerDeps := AList.update n t (r_peerDeps old)\<rparr>),
       links := links g', reversedLinks := reversedLinks g', peerLinks := peerLinks g'\<rparr>"
    and i: "i = nodeCounter g"
    using assms(1) old bv l by (auto simp: createVirtualNode_def Let_def new_def)
  have n': "nodes g' = AList.update (r_name old) (AList.update (r_version old) (l @ [new]) bv) (nodes g)"
    and o': "objectPrototype g' = []"
    by (subst g', simp add: pe assms(2))+
  show ?thesis
  proof (rule that[OF old i])
    show "nodeCounter g' = Suc (nodeCounter g)" by (subst g') simp
    show "reversedNodes g' = (reversedNodes g)(nodeCounter g \<mapsto>
                 old\<lparr>r_peerDeps := AList.update n t (r_peerDeps old)\<rparr>)" by (subst g') simp
    show "entries_of g' nm ver =
           (if nm = r_name old \<and> ver = r_version old
            then entries_of g nm ver @ [\<lparr>e_id = nodeCounter g,
                   e_peerDeps = AList.update n t (r_peerDeps old), e_isLocal = r_isLocal old\<rparr>]
            else entries_of g nm ver)" for nm ver
      using own l' by (simp add: entries_of_def n' get_or_empty_Some new_def)
    show "objectPrototype g' = []" by (rule o')
    show "versions_of g' (r_name old) = Some (get_or_empty (nodes g') (r_name old))"
      by (simp add: versions_of_def n' update_conv')
    show "list_of g' (get_or_empty (nodes g') (r_name old)) (r_version old) =
           Some (entries_of g' (r_name old) (r_version old))"
      by (simp add: list_of_def entries_of_def n' update_conv' get_or_empty_def)
  qed
qed

lemma nodes_inv_createVirtualNode:
  assumes "nodes_inv g" and cv: "createVirtualNode g s n t = Inr (g', i)"
  shows "nodes_inv g'"
  using cv nodes_invD(1)[OF assms(1)]
proof (cases rule: createVirtualNode_cases)
  case (1 old)
  have neq: "\<And>e nm ver. e \<in> set (entries_of g nm ver) \<Longrightarrow> e_id e \<noteq> nodeCounter g"
    using nodes_invD(4)[OF assms(1)] by fastforce
  have d: "distinct (map fst (r_peerDeps old))" using nodes_invD(2)[OF assms(1) 1(1)] .
  show ?thesis
    unfolding nodes_inv_def 1
    by (auto simp: rnode_of_def less_Suc_eq distinct_update d nodes_invD(5)[OF assms(1)] neq
        dest: nodes_invD(2)[OF assms(1)] nodes_invD(3)[OF assms(1)] nodes_invD(4)[OF assms(1)]
        split: if_splits)
qed

lemma nodes_inv_call:
  assumes inv: "nodes_inv g" and c: "call g c = Inr g'" and p: "plain_call c"
  shows "nodes_inv g'"
proof (cases c)
  case (AddNode n v l)
  then show ?thesis using inv c p nodes_inv_addNode plain_not_proto by auto
next
  case (AddLink s t)
  then show ?thesis using inv c nodes_inv_addLink by auto
next
  case (AddPeerLink s n r opt)
  then show ?thesis using inv c nodes_inv_addPeerLink by auto
next
  case (CreateVirtualNode s n t)
  then obtain i where cv: "createVirtualNode g s n t = Inr (g', i)"
    using c by (auto split: sum.splits)
  show ?thesis using nodes_inv_createVirtualNode[OF inv cv] .
next
  case (ChangeChildren p a b)
  then have cc: "changeChildren g p a b = Inr g'" using c by simp
  show ?thesis using nodes_inv_changeChildren[OF inv cc] .
qed

lemma nodes_inv_calls:
  "nodes_inv g \<Longrightarrow> calls g cs = Inr g' \<Longrightarrow> list_all plain_call cs \<Longrightarrow> nodes_inv g'"
proof (induction cs arbitrary: g)
  case Nil
  then show ?case by simp
next
  case (Cons c cs)
  from Cons.prems(2) obtain g1 where c: "call g c = Inr g1" and cs: "calls g1 cs = Inr g'"
    by (auto split: sum.splits)
  have "nodes_inv g1" using nodes_inv_call[OF Cons.prems(1) c] Cons.prems(3) by simp
  then show ?case using Cons.IH cs Cons.prems(3) by simp
qed

lemma length_update_fresh: "k \<notin> fst ` set al \<Longrightarrow> length (AList.update k v al) = Suc (length al)"
  by (induction al) auto

lemma matchesPeerDeps_plain:
  assumes "objectPrototype g = []"
  shows "matchesPeerDeps g pd n t e \<longleftrightarrow>
     length (e_peerDeps e) = length pd + 1 \<and>
     (\<forall>k \<in> fst ` set pd. map_of (e_peerDeps e) k = map_of pd k) \<and>
     map_of (e_peerDeps e) n = Some t"
proof -
  have r: "\<And>al k. read_peerDep g al k = (case map_of al k of Some v \<Rightarrow> Number v | None \<Rightarrow> NoNumber)"
    by (simp add: read_peerDep_def assms)
  have eq: "\<And>al bl k. (read_peerDep g al k = read_peerDep g bl k) = (map_of al k = map_of bl k)"
    by (auto simp: r split: option.splits)
  have nt: "(read_peerDep g (e_peerDeps e) n = Number t) = (map_of (e_peerDeps e) n = Some t)"
    by (auto simp: r split: option.splits)
  show ?thesis
    by (auto simp: matchesPeerDeps_def for_in_keys_def assms eq nt)
qed

lemma matchesPeerDeps_new:
  "objectPrototype g = [] \<Longrightarrow> n \<notin> fst ` set pd \<Longrightarrow>
   matchesPeerDeps g pd n t \<lparr>e_id = i, e_peerDeps = AList.update n t pd, e_isLocal = l\<rparr>"
  by (auto simp: matchesPeerDeps_plain length_update_fresh update_conv')

lemma matchesPeerDeps_map:
  assumes m: "matchesPeerDeps g pd n t e" and op: "objectPrototype g = []"
    and d1: "distinct (map fst pd)"
    and d2: "distinct (map fst (e_peerDeps e))" and fresh: "n \<notin> fst ` set pd"
  shows "map_of (e_peerDeps e) = (map_of pd)(n \<mapsto> t)"
proof -
  from m have all: "length (e_peerDeps e) = length pd + 1 \<and>
     (\<forall>k \<in> fst ` set pd. map_of (e_peerDeps e) k = map_of pd k) \<and>
     map_of (e_peerDeps e) n = Some t"
    unfolding matchesPeerDeps_plain[OF op] .
  then have len: "length (e_peerDeps e) = length pd + 1"
    and agree: "\<And>k. k \<in> fst ` set pd \<Longrightarrow> map_of (e_peerDeps e) k = map_of pd k"
    and nt: "map_of (e_peerDeps e) n = Some t"
    by blast+
  have sub: "insert n (fst ` set pd) \<subseteq> fst ` set (e_peerDeps e)"
  proof
    fix k assume k: "k \<in> insert n (fst ` set pd)"
    have "map_of (e_peerDeps e) k \<noteq> None"
    proof (cases "k = n")
      case True
      then show ?thesis using nt by simp
    next
      case False
      then have kin: "k \<in> fst ` set pd" using k by simp
      then have "map_of pd k \<noteq> None" by (simp add: map_of_eq_None_iff)
      then show ?thesis using agree[OF kin] by simp
    qed
    then show "k \<in> fst ` set (e_peerDeps e)" by (simp add: map_of_eq_None_iff)
  qed
  have "card (fst ` set (e_peerDeps e)) = length (e_peerDeps e)"
    using d2 distinct_card[of "map fst (e_peerDeps e)"] by simp
  moreover have "card (insert n (fst ` set pd)) = length pd + 1"
    using d1 fresh distinct_card[of "map fst pd"] by simp
  ultimately have eq: "fst ` set (e_peerDeps e) = insert n (fst ` set pd)"
    using sub len by (metis List.finite_set card_subset_eq finite_imageI)
  show ?thesis
  proof
    fix k
    show "map_of (e_peerDeps e) k = ((map_of pd)(n \<mapsto> t)) k"
    proof (cases "k \<in> insert n (fst ` set pd)")
      case True then show ?thesis using agree[of k] nt by auto
    next
      case False
      then have "map_of (e_peerDeps e) k = None" "map_of pd k = None" "k \<noteq> n"
        using eq by (auto simp: map_of_eq_None_iff)
      then show ?thesis by simp
    qed
  qed
qed

lemma filter_hd_mem:
  assumes "filter P xs = m # ms" shows "m \<in> set xs \<and> P m"
proof -
  have "m \<in> set (filter P xs)" by (simp add: assms)
  then show ?thesis by simp
qed

text \<open>
  C9, as the claim states it, for every reachable state: it fails. After
  \<open>addNode("__proto__", "x", false)\<close> the list of that node is the enumerable property
  \<open>Object.prototype.x\<close>. After \<open>addNode("A", "1", false)\<close> (id 1, \<open>peerDeps = {}\<close>, so
  \<open>x\<close> is no key of them), \<open>createVirtualNode(1, "x", 5)\<close> returns 2, and in
  \<open>getVirtualNode(1, "x", 5)\<close> the loop \<open>for (let pd in peerDeps)\<close> visits the inherited
  key \<open>x\<close>, where \<open>o.peerDeps.x\<close> is 5 and \<open>peerDeps.x\<close> is the inherited array: no entry
  passes the filter and the result is \<open>undefined\<close>.
\<close>

theorem getVirtualNode_counterexample:
  "case calls new_Graph [AddNode ''__proto__'' ''x'' False, AddNode ''A'' ''1'' False] of
     Inl e \<Rightarrow> False
   | Inr g \<Rightarrow>
       map_option r_peerDeps (reversedNodes g 1) = Some [] \<and>
       (case createVirtualNode g 1 ''x'' 5 of
          Inl e \<Rightarrow> False
        | Inr (g', new_id) \<Rightarrow> new_id = 2 \<and> getVirtualNode g' 1 ''x'' 5 = Inr None)"
  by (simp add: graph_eval)

text \<open>
  C9, amended: in a state reached from the empty graph by calls that all return and
  in which no \<open>addNode\<close> has a name or a version that is a built-in property name of
  \<open>Object.prototype\<close> (\<open>__proto__\<close>, \<open>constructor\<close>, \<open>toString\<close>, ...), for a node \<open>s\<close> of the
  graph and a name \<open>n\<close> that is no key of the \<open>peerDeps\<close> of \<open>s\<close>: when
  \<open>createVirtualNode(s, n, t)\<close> returns, \<open>getVirtualNode(s, n, t)\<close> on the new state
  returns the id of a node (not \<open>undefined\<close>) that has the name and the version of \<open>s\<close>
  and whose \<open>peerDeps\<close> are those of \<open>s\<close> with the one more entry \<open>n \<mapsto> t\<close>.
\<close>

theorem createVirtualNode_getVirtualNode:
  assumes reach: "calls new_Graph cs = Inr g" and plain: "list_all plain_call cs"
    and sn: "reversedNodes g s = Some sn"
    and fresh: "n \<notin> fst ` set (r_peerDeps sn)"
    and cv: "createVirtualNode g s n t = Inr (g', new_id)"
  shows "\<exists>v vn. getVirtualNode g' s n t = Inr (Some v) \<and> reversedNodes g' v = Some vn \<and>
           r_name vn = r_name sn \<and> r_version vn = r_version sn \<and>
           map_of (r_peerDeps vn) = (map_of (r_peerDeps sn))(n \<mapsto> t)"
proof -
  have inv: "nodes_inv g" using nodes_inv_calls[OF nodes_inv_new reach plain] .
  have inv': "nodes_inv g'" using nodes_inv_createVirtualNode[OF inv cv] .
  from cv nodes_invD(1)[OF inv] show ?thesis
  proof (cases rule: createVirtualNode_cases)
    case (1 old)
    have old: "old = sn" using 1(1) sn by simp
    define new where "new = \<lparr>e_id = nodeCounter g,
      e_peerDeps = AList.update n t (r_peerDeps sn), e_isLocal = r_isLocal sn\<rparr>"
    define es where "es = entries_of g' (r_name sn) (r_version sn)"
    have es: "es = entries_of g (r_name sn) (r_version sn) @ [new]"
      by (simp add: es_def 1(5) old new_def)
    have "s \<noteq> nodeCounter g"
      using nodes_invD(3)[OF inv sn] by simp
    then have sn': "reversedNodes g' s = Some sn" using sn by (simp add: 1(4))
    have "matchesPeerDeps g' (r_peerDeps sn) n t new"
      unfolding new_def using 1(6) fresh by (rule matchesPeerDeps_new)
    then have "filter (matchesPeerDeps g' (r_peerDeps sn) n t) es \<noteq> []"
      by (auto simp: es filter_empty_conv)
    then obtain m ms where f: "filter (matchesPeerDeps g' (r_peerDeps sn) n t) es = m # ms"
      by (cases "filter (matchesPeerDeps g' (r_peerDeps sn) n t) es") auto
    then have m: "m \<in> set es" "matchesPeerDeps g' (r_peerDeps sn) n t m"
      using filter_hd_mem by fastforce+
    have gv: "getVirtualNode g' s n t = Inr (Some (e_id m))"
      using sn' 1(7,8) f by (simp add: getVirtualNode_def old es_def)
    have rn: "reversedNodes g' (e_id m) = Some (rnode_of (r_name sn) (r_version sn) m)"
      using nodes_invD(5)[OF inv'] m(1) by (simp add: es_def)
    then have "distinct (map fst (e_peerDeps m))"
      using nodes_invD(2)[OF inv' rn] by (simp add: rnode_of_def)
    then have "map_of (e_peerDeps m) = (map_of (r_peerDeps sn))(n \<mapsto> t)"
      using matchesPeerDeps_map[OF m(2) 1(6) nodes_invD(2)[OF inv sn] _ fresh] by simp
    then show ?thesis using gv rn by (simp add: rnode_of_def)
  qed
qed

theorem createVirtualNode_getVirtualNode_witness:
  "list_all plain_call [AddNode ''A'' ''1.0.0'' False] \<and>
   (case createVirtualNode (addNode new_Graph ''A'' ''1.0.0'' False) 0 ''x'' 5 of
     Inl e \<Rightarrow> False
   | Inr (g', i) \<Rightarrow>
       (\<exists>v vn. getVirtualNode g' 0 ''x'' 5 = Inr (Some v) \<and> reversedNodes g' v = Some vn \<and>
          r_name vn = ''A'' \<and> r_version vn = ''1.0.0'' \<and>
          map_of (r_peerDeps vn) = [''x'' \<mapsto> 5]))"
proof -
  define g where "g = addNode new_Graph ''A'' ''1.0.0'' False"
  define sn where "sn = \<lparr>r_name = ''A'', r_version = ''1.0.0'', r_peerDeps = [], r_isLocal = False\<rparr>"
  have reach: "calls new_Graph [AddNode ''A'' ''1.0.0'' False] = Inr g"
    by (simp add: g_def)
  have plain: "list_all plain_call [AddNode ''A'' ''1.0.0'' False]"
    by (simp add: plain_key_def builtin_keys_def)
  have sn: "reversedNodes g 0 = Some sn"
    by (simp add: g_def sn_def new_Graph_def)
  have fresh: "''x'' \<notin> fst ` set (r_peerDeps sn)" by (simp add: sn_def)
  obtain g' i where cv: "createVirtualNode g 0 ''x'' 5 = Inr (g', i)"
    by (simp add: g_def graph_eval)
  show ?thesis
    using createVirtualNode_getVirtualNode[OF reach plain sn fresh cv] cv plain
    by (simp add: g_def[symmetric] sn_def)
qed

section \<open>Properties of the installer\<close>

lemmas installer_eval = validateInput_def getLocationError_def getGraphError_def getBinError_def
  example_disk_def example_node_def isAbsolute_def validName_def unscoped_name_def scope_name_def
  letter_or_digit_def lower_or_digit_def notFolder_def isDirectory_def quoted_def
  findDependenciesWithSameName_def keyToNameMap_def binNameErrors_def binNames_def
  invalidBinName_def get_or_empty_def collision_message_def


text \<open>
  C3: when \<open>validateInput\<close> throws, \<open>installLocalStore\<close> throws the same error and has
  issued no \<open>mkdir\<close>, copy, remove, symlink, shim or script before: the validation,
  which only reads the disk, is the first statement that can fail, and nothing that
  changes the disk comes before it.
\<close>

theorem validation_before_mutation:
  assumes "validateInput (disk env) g location'
             (case options of None \<Rightarrow> None | Some opts \<Rightarrow> ignoreBinConflicts opts) = Some e"
  shows "installLocalStore env g location' options = (Some e, [])"
  using assms by (simp add: installLocalStore_def)

theorem validation_before_mutation_witness:
  "validateInput (disk example_environment)
     \<lparr>i_nodes = [example_node ''A'' ''a'' ''relative'' None], i_links = []\<rparr> ''/store'' None =
     Some (Error (''Location of a node is not absolute: '' @ quoted ''relative'')) \<and>
   installLocalStore example_environment
     \<lparr>i_nodes = [example_node ''A'' ''a'' ''relative'' None], i_links = []\<rparr> ''/store'' None =
     (Some (Error (''Location of a node is not absolute: '' @ quoted ''relative'')), [])"
proof -
  have v: "validateInput (disk example_environment)
     \<lparr>i_nodes = [example_node ''A'' ''a'' ''relative'' None], i_links = []\<rparr> ''/store''
     (case None of None \<Rightarrow> None | Some opts \<Rightarrow> ignoreBinConflicts opts) =
     Some (Error (''Location of a node is not absolute: '' @ quoted ''relative''))"
    by (simp add: example_environment_def installer_eval)
  show ?thesis
    using v validation_before_mutation[OF v] by simp
qed




subsection \<open>Bin conflicts\<close>

lemma installTargetBins_fresh:
  "distinct bs \<Longrightarrow> set bs \<inter> set installed = {} \<Longrightarrow>
   installTargetBins ign s bs (installed, errs) = (installed @ bs, errs)"
  by (induction bs arbitrary: installed) auto

lemma update_same: "map_of al k = Some v \<Longrightarrow> AList.update k v al = al"
  by (induction al) (auto split: if_splits)

lemma binCollisions_none:
  assumes "\<forall>l \<in> set ls. \<exists>bs. binsMap (target l) = Some bs \<and> distinct bs"
    and "\<forall>l \<in> set ls. map_of inst (source l) \<noteq> None"
    and "\<forall>l \<in> set ls. set (get_or_empty inst (source l)) \<inter> set (the (binsMap (target l))) = {}"
    and "\<forall>i j. i < j \<longrightarrow> j < length ls \<longrightarrow> source (ls ! i) = source (ls ! j) \<longrightarrow>
           set (the (binsMap (target (ls ! i)))) \<inter> set (the (binsMap (target (ls ! j)))) = {}"
  shows "binCollisions ign binsMap inst [] ls = Inr []"
  using assms
proof (induction ls arbitrary: inst)
  case Nil
  then show ?case by simp
next
  case (Cons l ls)
  from Cons.prems(1) obtain bs where bs: "binsMap (target l) = Some bs" "distinct bs" by auto
  from Cons.prems(2) obtain installed where inst: "map_of inst (source l) = Some installed"
    by auto
  have gi: "get_or_empty inst (source l) = installed"
    using inst by (simp add: get_or_empty_Some)
  have disj: "set bs \<inter> set installed = {}"
    using Cons.prems(3) bs gi by auto
  define inst' where "inst' = AList.update (source l) (installed @ bs) inst"
  have pair: "\<And>l'. l' \<in> set ls \<Longrightarrow> source l' = source l \<Longrightarrow>
      set bs \<inter> set (the (binsMap (target l'))) = {}"
  proof -
    fix l' assume "l' \<in> set ls" and s: "source l' = source l"
    then obtain j where j: "j < length ls" "ls ! j = l'" by (auto simp: in_set_conv_nth)
    have "set (the (binsMap (target ((l # ls) ! 0)))) \<inter>
          set (the (binsMap (target ((l # ls) ! Suc j)))) = {}"
      using Cons.prems(4)[rule_format, of 0 "Suc j"] j s by simp
    then show "set bs \<inter> set (the (binsMap (target l'))) = {}" using bs j by simp
  qed
  have rest: "binCollisions ign binsMap inst' [] ls = Inr []"
  proof (rule Cons.IH)
    show "\<forall>l \<in> set ls. \<exists>bs. binsMap (target l) = Some bs \<and> distinct bs"
      using Cons.prems(1) by simp
    show "\<forall>l' \<in> set ls. map_of inst' (source l') \<noteq> None"
      using Cons.prems(2) by (simp add: inst'_def update_conv')
    show "\<forall>l' \<in> set ls. set (get_or_empty inst' (source l')) \<inter> set (the (binsMap (target l'))) = {}"
    proof
      fix l' assume l': "l' \<in> set ls"
      show "set (get_or_empty inst' (source l')) \<inter> set (the (binsMap (target l'))) = {}"
      proof (cases "source l' = source l")
        case True
        have "set (get_or_empty inst (source l')) \<inter> set (the (binsMap (target l'))) = {}"
          using Cons.prems(3) l' by simp
        then have "set installed \<inter> set (the (binsMap (target l'))) = {}"
          using True gi by simp
        then show ?thesis using pair[OF l' True] True by (auto simp: inst'_def)
      next
        case False
        then show ?thesis using Cons.prems(3) l' by (simp add: inst'_def)
      qed
    qed
    show "\<forall>i j. i < j \<longrightarrow> j < length ls \<longrightarrow> source (ls ! i) = source (ls ! j) \<longrightarrow>
           set (the (binsMap (target (ls ! i)))) \<inter> set (the (binsMap (target (ls ! j)))) = {}"
    proof (intro allI impI)
      fix i j assume "i < j" "j < length ls" "source (ls ! i) = source (ls ! j)"
      then show "set (the (binsMap (target (ls ! i)))) \<inter> set (the (binsMap (target (ls ! j)))) = {}"
        using Cons.prems(4)[rule_format, of "Suc i" "Suc j"] by simp
    qed
  qed
  show ?case
  proof (cases "bs = []")
    case True
    then have "inst' = inst" using inst by (simp add: inst'_def update_same)
    then show ?thesis using bs True rest by simp
  next
    case False
    then show ?thesis
      using bs inst rest installTargetBins_fresh[OF bs(2) disj, of ign "source l" "[]"]
      by (simp add: inst'_def)
  qed
qed


lemma map_of_rev_keys:
  "(map_of (rev (map (\<lambda>n. (f n, h n)) xs)) k \<noteq> None) = (k \<in> f ` set xs)"
proof -
  have "(map_of (rev (map (\<lambda>n. (f n, h n)) xs)) k = None) =
        (k \<notin> fst ` set (rev (map (\<lambda>n. (f n, h n)) xs)))"
    by (rule map_of_eq_None_iff)
  moreover have "fst ` set (rev (map (\<lambda>n. (f n, h n)) xs)) = f ` set xs"
    by (simp add: image_image)
  ultimately show ?thesis by simp
qed

lemma fold_update_keys:
  "map_of (fold (\<lambda>n m. AList.update (f n) [] m) xs m0) k =
     (if k \<in> f ` set xs then Some [] else map_of m0 k)"
  by (induction xs arbitrary: m0) (simp_all add: update_conv')

lemma getGraphError_links:
  assumes "getGraphError fs g = None" and "l \<in> set (i_links g)"
  shows "source l \<in> key ` set (i_nodes g)" "target l \<in> key ` set (i_nodes g)"
proof -
  have s: "filter (\<lambda>l. source l \<notin> set (map key (i_nodes g))) (i_links g) = []"
  proof (rule ccontr)
    assume "filter (\<lambda>l. source l \<notin> set (map key (i_nodes g))) (i_links g) \<noteq> []"
    then obtain x xs where "filter (\<lambda>l. source l \<notin> set (map key (i_nodes g))) (i_links g) = x # xs"
      by (cases "filter (\<lambda>l. source l \<notin> set (map key (i_nodes g))) (i_links g)") auto
    then have "getGraphError fs g \<noteq> None"
      by (simp add: getGraphError_def split: option.splits list.splits)
    then show False using assms(1) by simp
  qed
  have t: "filter (\<lambda>l. target l \<notin> set (map key (i_nodes g))) (i_links g) = []"
  proof (rule ccontr)
    assume "filter (\<lambda>l. target l \<notin> set (map key (i_nodes g))) (i_links g) \<noteq> []"
    then obtain x xs where "filter (\<lambda>l. target l \<notin> set (map key (i_nodes g))) (i_links g) = x # xs"
      by (cases "filter (\<lambda>l. target l \<notin> set (map key (i_nodes g))) (i_links g)") auto
    then have "getGraphError fs g \<noteq> None"
      by (simp add: getGraphError_def split: option.splits list.splits)
    then show False using assms(1) by simp
  qed
  show "source l \<in> key ` set (i_nodes g)" using s assms(2) by (auto simp: filter_empty_conv)
  show "target l \<in> key ` set (i_nodes g)" using t assms(2) by (auto simp: filter_empty_conv)
qed

lemma no_target_conflict_nth:
  "no_target_conflict g ls \<Longrightarrow> i < j \<Longrightarrow> j < length ls \<Longrightarrow> source (ls ! i) = source (ls ! j) \<Longrightarrow>
   set (target_bins g (target (ls ! i))) \<inter> set (target_bins g (target (ls ! j))) = {}"
proof (induction ls arbitrary: i j)
  case Nil
  then show ?case by simp
next
  case (Cons l ls)
  show ?case
  proof (cases i)
    case 0
    then obtain j' where j': "j = Suc j'" using Cons.prems(2) by (cases j) auto
    then have "ls ! j' \<in> set ls" using Cons.prems(3) by simp
    then show ?thesis using Cons.prems(1,4) 0 j' by auto
  next
    case (Suc i')
    then obtain j' where j': "j = Suc j'" using Cons.prems(2) by (cases j) auto
    show ?thesis using Cons.IH[of i' j'] Cons.prems Suc j' by simp
  qed
qed


text \<open>
  C10: \<open>validateInput\<close> runs on the graph as the caller gave it, \<open>addSelfLinks\<close> on its
  result only afterwards, and a bin conflict is a name exposed by the targets of two
  links of one source. So for an input that passes the checks of the store and of
  the graph, whose bin names are valid and in which no two links of one source have
  targets with a bin of the same name, validation passes with
  \<open>ignoreBinConflicts = false\<close>, whatever bins the source exposes itself: a name shared
  by a node and one of its targets raises no error unless the node is linked to
  itself.
\<close>

theorem own_bins_not_checked:
  assumes loc: "getLocationError fs location' = None"
    and gr: "getGraphError fs g = None"
    and names: "\<forall>n \<in> set (i_nodes g). \<forall>b \<in> set (binNames n). \<not> invalidBinName b"
    and targets: "no_target_conflict g (i_links g)"
  shows "validateInput fs g location' (Some False) = None"
proof -
  define binsMap where "binsMap = map_of (rev (map (\<lambda>n. (key n, remdups (binNames n))) (i_nodes g)))"
  define inst :: "(string \<times> string list) list" where "inst = fold (\<lambda>n m. AList.update (key n) [] m) (i_nodes g) []"
  have tb: "\<And>k. k \<in> key ` set (i_nodes g) \<Longrightarrow> binsMap k = Some (target_bins g k)"
  proof -
    fix k assume "k \<in> key ` set (i_nodes g)"
    then have "binsMap k \<noteq> None" unfolding binsMap_def using map_of_rev_keys[of key "\<lambda>n. remdups (binNames n)" "i_nodes g" k] by simp
    then show "binsMap k = Some (target_bins g k)"
      by (auto simp: target_bins_def get_or_empty_def binsMap_def)
  qed
  have dist: "\<And>k bs. binsMap k = Some bs \<Longrightarrow> distinct bs"
    unfolding binsMap_def by (auto dest!: map_of_SomeD)
  have e1: "concat (map binNameErrors (i_nodes g)) = []"
    using names by (auto simp: binNameErrors_def filter_empty_conv)
  have "binCollisions False binsMap inst [] (i_links g) = Inr []"
  proof (rule binCollisions_none)
    show "\<forall>l \<in> set (i_links g). \<exists>bs. binsMap (target l) = Some bs \<and> distinct bs"
      using tb getGraphError_links(2)[OF gr] dist by blast
    show "\<forall>l \<in> set (i_links g). map_of inst (source l) \<noteq> None"
      using getGraphError_links(1)[OF gr] by (simp add: inst_def fold_update_keys)
    show "\<forall>l \<in> set (i_links g). set (get_or_empty inst (source l)) \<inter>
            set (the (binsMap (target l))) = {}"
      using getGraphError_links(1)[OF gr] by (simp add: inst_def get_or_empty_def fold_update_keys)
    show "\<forall>i j. i < j \<longrightarrow> j < length (i_links g) \<longrightarrow>
            source (i_links g ! i) = source (i_links g ! j) \<longrightarrow>
            set (the (binsMap (target (i_links g ! i)))) \<inter>
            set (the (binsMap (target (i_links g ! j)))) = {}"
    proof (intro allI impI)
      fix i j assume ij: "i < j" "j < length (i_links g)"
        and s: "source (i_links g ! i) = source (i_links g ! j)"
      have "target (i_links g ! i) \<in> key ` set (i_nodes g)"
           "target (i_links g ! j) \<in> key ` set (i_nodes g)"
        using getGraphError_links(2)[OF gr] ij by simp_all
      then show "set (the (binsMap (target (i_links g ! i)))) \<inter>
            set (the (binsMap (target (i_links g ! j)))) = {}"
        using no_target_conflict_nth[OF targets ij s] tb by simp
    qed
  qed
  then have "getBinError g (Some False) = Inr None"
    by (simp add: getBinError_def e1 binsMap_def inst_def)
  then show ?thesis by (simp add: validateInput_def loc gr)
qed

theorem own_bins_not_checked_witness:
  "validateInput example_disk
     \<lparr>i_nodes = [example_node ''foo'' ''foo'' ''/pkg'' (Some [(''x'', ''a.js'')]),
                 example_node ''bar'' ''bar'' ''/pkg'' (Some [(''x'', ''b.js'')])],
      i_links = [\<lparr>source = ''foo'', target = ''bar''\<rparr>]\<rparr> ''/store'' (Some False) = None \<and>
   getBinError (addSelfLinks
     \<lparr>i_nodes = [example_node ''foo'' ''foo'' ''/pkg'' (Some [(''x'', ''a.js'')]),
                 example_node ''bar'' ''bar'' ''/pkg'' (Some [(''x'', ''b.js'')])],
      i_links = [\<lparr>source = ''foo'', target = ''bar''\<rparr>]\<rparr>) (Some False) =
     Inr (Some (collision_message ''x'' ''foo''))"
proof -
  define g where "g = \<lparr>i_nodes = [example_node ''foo'' ''foo'' ''/pkg'' (Some [(''x'', ''a.js'')]),
                 example_node ''bar'' ''bar'' ''/pkg'' (Some [(''x'', ''b.js'')])],
      i_links = [\<lparr>source = ''foo'', target = ''bar''\<rparr>]\<rparr>"
  have 1: "getLocationError example_disk ''/store'' = None"
    by (simp add: installer_eval)
  have 2: "getGraphError example_disk g = None"
    by (simp add: g_def installer_eval)
  have 3: "\<forall>n \<in> set (i_nodes g). \<forall>b \<in> set (binNames n). \<not> invalidBinName b"
    by (simp add: g_def installer_eval)
  have 4: "no_target_conflict g (i_links g)"
    by (simp add: g_def)
  have 5: "getBinError (addSelfLinks g) (Some False) = Inr (Some (collision_message ''x'' ''foo''))"
    by (simp add: g_def addSelfLinks_def getBinError_def binNameErrors_def binNames_def
        invalidBinName_def example_node_def)
  show ?thesis
    using own_bins_not_checked[OF 1 2 3 4] 5 unfolding g_def by simp
qed

subsection \<open>Root components\<close>


lemma roots_filter:
  "set (map fst (filter (\<lambda>(j, c). P c) (zip [0..<length comps] comps))) =
     {j. j < length comps \<and> P (comps ! j)}"
proof -
  have "\<And>j. (j \<in> set (map fst (filter (\<lambda>(j, c). P c) (zip [0..<length comps] comps)))) =
             (j < length comps \<and> P (comps ! j))"
  proof -
    fix j
    have "(j \<in> set (map fst (filter (\<lambda>(j, c). P c) (zip [0..<length comps] comps)))) =
          (\<exists>c. (j, c) \<in> set (zip [0..<length comps] comps) \<and> P c)"
      by force
    also have "\<dots> = (j < length comps \<and> P (comps ! j))"
    proof
      assume "\<exists>c. (j, c) \<in> set (zip [0..<length comps] comps) \<and> P c"
      then show "j < length comps \<and> P (comps ! j)" by (auto simp: set_zip)
    next
      assume h: "j < length comps \<and> P (comps ! j)"
      then have "(j, comps ! j) \<in> set (zip [0..<length comps] comps)"
        unfolding set_zip by (intro CollectI exI[of _ j]) simp
      then show "\<exists>c. (j, c) \<in> set (zip [0..<length comps] comps) \<and> P c" using h by blast
    qed
    finally show "(j \<in> set (map fst (filter (\<lambda>(j, c). P c) (zip [0..<length comps] comps)))) =
             (j < length comps \<and> P (comps ! j))" .
  qed
  then show ?thesis by blast
qed

lemma indexToRoot_asTreeGraph: "\<not> indexToRoot (asTreeGraph ig) i"
  by (simp add: indexToRoot_def asTreeGraph_def)

lemma convertGraphToTree_roots:
  assumes "pushLinks g (map (\<lambda>_. []) (t_nodes g)) (t_links g) = Inr gr"
    and "convertGraphToTree scc' g = Inr tree"
  shows "rootComponents tree =
           map fst (filter (\<lambda>(j, c). \<exists>i \<in> set c. indexToRoot g i)
                      (zip [0..<length (fst (scc' gr))] (fst (scc' gr))))"
  using assms
  by (cases "scc' gr")
     (auto simp: convertGraphToTree_def Let_def split: sum.splits)

text \<open>
  C8, as the claim states it: it fails. \<open>runScripts\<close> hands the installer's graph to
  \<open>convertGraphToTree\<close>, which reads \<open>isRoot\<close>; the nodes of the installer have
  \<open>keepInPlace\<close> and no \<open>isRoot\<close>, and nothing between \<open>installLocalStore\<close> and
  \<open>convertGraphToTree\<close> sets it. For the graph of the one package \<open>A\<close> that is kept in
  place, a root for the caller, with its self-link, and a library that returns the one
  component \<open>[0]\<close>, the tree has the component and no root component.
\<close>

theorem root_components_counterexample:
  "runScripts_tree (scc example_environment)
     (addSelfLinks \<lparr>i_nodes = [\<lparr>key = ''A'', n_name = ''a'', keepInPlace = Some True,
                                bins = None, location = ''/pkg''\<rparr>], i_links = []\<rparr>)
   = Inr \<lparr>components = [(0, \<lparr>keys = [Some ''A''], c_dependencies = []\<rparr>)],
          rootComponents = []\<rparr>"
  by (simp add: runScripts_tree_def convertGraphToTree_def asTreeGraph_def addSelfLinks_def
      example_environment_def nodeToIndex_def indexToNode_def indexToRoot_def)

text \<open>
  C8, amended: in the tree of \<open>convertGraphToTree\<close>, component \<open>j\<close> of the library's
  answer is a root component if and only if one of its indices is the index of a node
  whose \<open>isRoot\<close> is \<open>true\<close>; and on a graph that comes from the installer, as in
  \<open>runScripts\<close>, no node has \<open>isRoot\<close>, so \<open>rootComponents\<close> is empty whatever the nodes
  are.
\<close>

theorem root_components:
  assumes "pushLinks g (map (\<lambda>_. []) (t_nodes g)) (t_links g) = Inr gr"
    and "convertGraphToTree scc' g = Inr tree"
  shows "(\<forall>j. j \<in> set (rootComponents tree) \<longleftrightarrow>
            j < length (fst (scc' gr)) \<and>
            (\<exists>i \<in> set (fst (scc' gr) ! j).
                i < length (t_nodes g) \<and> isRoot (t_nodes g ! i) = Some True)) \<and>
         (\<forall>ig. g = asTreeGraph ig \<longrightarrow> rootComponents tree = [])"
proof -
  have r: "rootComponents tree =
           map fst (filter (\<lambda>(j, c). \<exists>i \<in> set c. indexToRoot g i)
                      (zip [0..<length (fst (scc' gr))] (fst (scc' gr))))"
    using assms by (rule convertGraphToTree_roots)
  have a: "\<forall>j. j \<in> set (rootComponents tree) \<longleftrightarrow>
            j < length (fst (scc' gr)) \<and>
            (\<exists>i \<in> set (fst (scc' gr) ! j).
                i < length (t_nodes g) \<and> isRoot (t_nodes g ! i) = Some True)"
    unfolding r roots_filter[of "\<lambda>c. \<exists>i \<in> set c. indexToRoot g i" "fst (scc' gr)"]
    by (simp add: indexToRoot_def)
  have b: "\<forall>ig. g = asTreeGraph ig \<longrightarrow> rootComponents tree = []"
    unfolding r by (simp add: indexToRoot_asTreeGraph filter_empty_conv)
  show ?thesis using a b by blast
qed


theorem root_components_witness:
  "(case convertGraphToTree (scc example_environment)
           \<lparr>t_nodes = [\<lparr>t_key = ''foo'', isRoot = Some True\<rparr>, \<lparr>t_key = ''bar'', isRoot = None\<rparr>],
            t_links = [\<lparr>source = ''foo'', target = ''bar''\<rparr>]\<rparr> of
      Inl e \<Rightarrow> False
    | Inr tree \<Rightarrow> 0 \<in> set (rootComponents tree) \<and> 1 \<notin> set (rootComponents tree)) \<and>
   (case runScripts_tree (scc example_environment)
           (addSelfLinks \<lparr>i_nodes = [\<lparr>key = ''A'', n_name = ''a'', keepInPlace = Some True,
                                      bins = None, location = ''/pkg''\<rparr>], i_links = []\<rparr>) of
      Inl e \<Rightarrow> False
    | Inr tree \<Rightarrow> rootComponents tree = [])"
proof -
  define g where "g = \<lparr>t_nodes = [\<lparr>t_key = ''foo'', isRoot = Some True\<rparr>, \<lparr>t_key = ''bar'', isRoot = None\<rparr>],
            t_links = [\<lparr>source = ''foo'', target = ''bar''\<rparr>]\<rparr>"
  define ig where "ig = addSelfLinks \<lparr>i_nodes = [\<lparr>key = ''A'', n_name = ''a'', keepInPlace = Some True,
                                      bins = None, location = ''/pkg''\<rparr>], i_links = []\<rparr>"
  define tree where "tree = projr (convertGraphToTree (scc example_environment) g)"
  define tree' where "tree' = projr (runScripts_tree (scc example_environment) ig)"
  have p: "pushLinks g (map (\<lambda>_. []) (t_nodes g)) (t_links g) = Inr [[Some 1], []]"
    by (simp add: g_def nodeToIndex_def)
  have c: "convertGraphToTree (scc example_environment) g = Inr tree"
    by (simp add: tree_def g_def convertGraphToTree_def example_environment_def nodeToIndex_def)
  have p': "pushLinks (asTreeGraph ig) (map (\<lambda>_. []) (t_nodes (asTreeGraph ig)))
              (t_links (asTreeGraph ig)) = Inr [[Some 0]]"
    by (simp add: ig_def asTreeGraph_def addSelfLinks_def nodeToIndex_def)
  have c': "convertGraphToTree (scc example_environment) (asTreeGraph ig) = Inr tree'"
    by (simp add: tree'_def ig_def runScripts_tree_def convertGraphToTree_def asTreeGraph_def
        addSelfLinks_def example_environment_def nodeToIndex_def)
  have s: "fst (scc example_environment [[Some 1], []]) = [[0], [1]]"
    by (simp add: example_environment_def)
  have "0 \<in> set (rootComponents tree) \<and> 1 \<notin> set (rootComponents tree)"
    using root_components[OF p c] unfolding s by (simp add: g_def)
  moreover have "rootComponents tree' = []"
    using root_components[OF p' c'] by blast
  ultimately show ?thesis
    using c c' unfolding g_def[symmetric] ig_def[symmetric] by (simp add: runScripts_tree_def)
qed


section \<open>Properties of the resolver\<close>

lemma getPeerLinks_loop_not_local:
  assumes "getPeerLinks_loop g ks acc = Inr ps"
    and "\<forall>p \<in> set acc. \<exists>n. reversedNodes g (p_sourceId p) = Some n \<and> \<not> r_isLocal n"
  shows "\<forall>p \<in> set ps. \<exists>n. reversedNodes g (p_sourceId p) = Some n \<and> \<not> r_isLocal n"
  using assms
proof (induction ks arbitrary: acc)
  case Nil
  then show ?case by simp
next
  case (Cons k ks)
  show ?case
  proof (cases "reversedNodes g k")
    case None
    then show ?thesis using Cons.prems by simp
  next
    case (Some node)
    show ?thesis
    proof (cases "r_isLocal node")
      case True
      then show ?thesis using Cons.IH[of acc] Cons.prems Some by simp
    next
      case False
      let ?new = "concat (map (\<lambda>parent. map (pending parent k) (get_or_empty (peerLinks g) k))
                   (get_or_empty (reversedLinks g) k))"
      have run: "getPeerLinks_loop g ks (acc @ ?new) = Inr ps"
        using Cons.prems(1) Some False by simp
      have "\<forall>p \<in> set ?new. p_sourceId p = k"
        by (auto simp: pending_def)
      then have "\<forall>p \<in> set (acc @ ?new). \<exists>n. reversedNodes g (p_sourceId p) = Some n \<and> \<not> r_isLocal n"
        using Cons.prems(2) Some False by auto
      then show ?thesis using Cons.IH[OF run] by blast
    qed
  qed
qed

lemma getPeerLinks_not_local:
  "getPeerLinks g = Inr ps \<Longrightarrow> p \<in> set ps \<Longrightarrow>
   \<exists>n. reversedNodes g (p_sourceId p) = Some n \<and> \<not> r_isLocal n"
  using getPeerLinks_loop_not_local[of g "map fst (peerLinks g)" "[]" ps]
  by (simp add: getPeerLinks_def)

text \<open>
  C5: \<open>getPeerLinks\<close> skips the keys of \<open>peerLinks\<close> whose node is local
  (\<open>getPeerLinks_not_local\<close>), but the resolver's loop has a second way into the queue:
  after \<open>createVirtualNode\<close> it pushes the peer links of every child of the new node,
  and there it does not look at \<open>isLocal\<close>. The local package \<open>A\<close> depends on \<open>B\<close>
  and has the peer dependency \<open>P\<close>; \<open>B\<close> has the peer dependency \<open>A\<close>. The virtual
  copy of \<open>B\<close> gets \<open>A\<close> as a child, the entry \<open>P\<close> of \<open>A\<close> is queued with that copy as
  parent, nothing provides \<open>P\<close>, and \<open>createDependencyGraph\<close> throws the unmet peer
  dependency of the local package. Without the entry \<open>P\<close> the same input resolves.
\<close>

theorem local_peer_dependency_unmet:
  "createDependencyGraph 10 (\<lambda>v r. True)
     [example_manifest ''A'' ''1.0.0'' (Some True) (Some [(''B'', ''^1.0.0'')]) (Some [(''P'', ''*'')]),
      example_manifest ''B'' ''1.0.0'' None None (Some [(''A'', ''*'')])]
     [(''B'', [(''^1.0.0'', ''1.0.0'')])] None
   = Inl (Error ''[ERROR] Unmet peer dependency: P in A@1.0.0 (parent: B@1.0.0)'') \<and>
   createDependencyGraph 10 (\<lambda>v r. True)
     [example_manifest ''A'' ''1.0.0'' (Some True) (Some [(''B'', ''^1.0.0'')]) None,
      example_manifest ''B'' ''1.0.0'' None None (Some [(''A'', ''*'')])]
     [(''B'', [(''^1.0.0'', ''1.0.0'')])] None
   = Inr (\<lparr>dg_nodes = [\<lparr>name = ''A'', version = ''1.0.0'', id = Some 0\<rparr>,
                       \<lparr>name = ''B'', version = ''1.0.0'', id = Some 1\<rparr>],
           dg_links = [\<lparr>sourceId = Some 0, targetId = Some 1\<rparr>,
                       \<lparr>sourceId = Some 1, targetId = Some 0\<rparr>]\<rparr>, [])"
  by code_simp





section \<open>Properties of the public graph\<close>

subsection \<open>Reachability\<close>

declare getReachableNodes_loop.simps [simp del]

lemma getReachableNodes_loop_sound:
  assumes "set reached \<subseteq> A" and "set waiting \<subseteq> A"
    and "\<forall>x \<in> A. set (get_or_empty (links g) x) \<subseteq> A"
  shows "set (getReachableNodes_loop g waiting reached) \<subseteq> A"
  using assms
proof (induction g waiting reached rule: getReachableNodes_loop.induct)
  case (1 g waiting reached)
  show ?case
  proof (cases "waiting = []")
    case True
    then show ?thesis using "1.prems"(1) by (subst getReachableNodes_loop.simps) simp
  next
    case False
    have l: "last waiting \<in> A" using False "1.prems"(2) by auto
    have b: "set (butlast waiting) \<subseteq> A"
      using "1.prems"(2) by (meson in_set_butlastD subset_iff)
    show ?thesis
    proof (cases "last waiting \<in> set reached")
      case True
      have "set (getReachableNodes_loop g (butlast waiting) reached) \<subseteq> A"
        using "1.IH"(1)[OF False refl refl True "1.prems"(1) b "1.prems"(3)] .
      then show ?thesis using False True by (subst getReachableNodes_loop.simps) (simp add: Let_def)
    next
      case n: False
      have "set (getReachableNodes_loop g (butlast waiting @ get_or_empty (links g) (last waiting))
                   (reached @ [last waiting])) \<subseteq> A"
      proof (rule "1.IH"(2)[OF False refl refl n])
        show "set (reached @ [last waiting]) \<subseteq> A" using "1.prems"(1) l by simp
        show "set (butlast waiting @ get_or_empty (links g) (last waiting)) \<subseteq> A"
          using b l "1.prems"(3) by auto
        show "\<forall>x \<in> A. set (get_or_empty (links g) x) \<subseteq> A" by (rule "1.prems"(3))
      qed
      then show ?thesis using False n by (subst getReachableNodes_loop.simps) (simp add: Let_def)
    qed
  qed
qed

lemma getReachableNodes_loop_closed:
  assumes "\<forall>x \<in> set reached. set (get_or_empty (links g) x) \<subseteq> set reached \<union> set waiting"
  shows "set reached \<union> set waiting \<subseteq> set (getReachableNodes_loop g waiting reached) \<and>
         (\<forall>x \<in> set (getReachableNodes_loop g waiting reached).
             set (get_or_empty (links g) x) \<subseteq> set (getReachableNodes_loop g waiting reached))"
  using assms
proof (induction g waiting reached rule: getReachableNodes_loop.induct)
  case (1 g waiting reached)
  show ?case
  proof (cases "waiting = []")
    case True
    then show ?thesis using "1.prems" by (subst (1 2 3) getReachableNodes_loop.simps) simp
  next
    case False
    have w: "set waiting = insert (last waiting) (set (butlast waiting))"
      using False by (metis append_butlast_last_id insert_is_Un list.simps(15) set_append sup_commute
          empty_set)
    show ?thesis
    proof (cases "last waiting \<in> set reached")
      case True
      have e: "getReachableNodes_loop g waiting reached =
               getReachableNodes_loop g (butlast waiting) reached"
        using False True by (subst getReachableNodes_loop.simps) (simp add: Let_def)
      have p: "\<forall>x \<in> set reached. set (get_or_empty (links g) x) \<subseteq> set reached \<union> set (butlast waiting)"
        using "1.prems" w True by auto
      show ?thesis
        unfolding e using "1.IH"(1)[OF False refl refl True p] w True by auto
    next
      case n: False
      have e: "getReachableNodes_loop g waiting reached =
               getReachableNodes_loop g (butlast waiting @ get_or_empty (links g) (last waiting))
                 (reached @ [last waiting])"
        using False n by (subst getReachableNodes_loop.simps) (simp add: Let_def)
      have p: "\<forall>x \<in> set (reached @ [last waiting]). set (get_or_empty (links g) x) \<subseteq>
                 set (reached @ [last waiting]) \<union>
                 set (butlast waiting @ get_or_empty (links g) (last waiting))"
        using "1.prems" w by auto
      show ?thesis
        unfolding e using "1.IH"(2)[OF False refl refl n p] w by auto
    qed
  qed
qed


lemma getReachableNodes_roots: "set (rootIds g) \<subseteq> set (getReachableNodes g)"
  using getReachableNodes_loop_closed[of "[]" g "rootIds g"] by (simp add: getReachableNodes_def)

lemma getReachableNodes_closed:
  assumes "x \<in> set (getReachableNodes g)" and "has_link (links g) x y"
  shows "y \<in> set (getReachableNodes g)"
  using getReachableNodes_loop_closed[of "[]" g "rootIds g"] assms
  by (auto simp: getReachableNodes_def has_link_def)

lemma getReachableNodes_rtrancl:
  assumes "(x, y) \<in> (link_rel g)\<^sup>*" and "x \<in> set (getReachableNodes g)"
  shows "y \<in> set (getReachableNodes g)"
  using assms
proof (induction rule: rtrancl_induct)
  case base
  then show ?case by simp
next
  case (step y z)
  then show ?case using getReachableNodes_closed[of y g z] by (simp add: link_rel_def)
qed

lemma getReachableNodes_sound:
  assumes "x \<in> set (getReachableNodes g)"
  shows "\<exists>r \<in> set (rootIds g). (r, x) \<in> (link_rel g)\<^sup>*"
proof -
  define A where "A = {x. \<exists>r \<in> set (rootIds g). (r, x) \<in> (link_rel g)\<^sup>*}"
  have 1: "set ([] :: nat list) \<subseteq> A" by simp
  have 2: "set (rootIds g) \<subseteq> A" by (auto simp: A_def)
  have 3: "\<forall>x \<in> A. set (get_or_empty (links g) x) \<subseteq> A"
  proof (intro ballI subsetI)
    fix x y assume "x \<in> A" and "y \<in> set (get_or_empty (links g) x)"
    then obtain r where r: "r \<in> set (rootIds g)" "(r, x) \<in> (link_rel g)\<^sup>*"
      and xy: "(x, y) \<in> link_rel g"
      by (auto simp: A_def link_rel_def has_link_def)
    from r(2) xy have "(r, y) \<in> (link_rel g)\<^sup>*" by (rule rtrancl_into_rtrancl)
    then show "y \<in> A" using r(1) by (auto simp: A_def)
  qed
  have "set (getReachableNodes g) \<subseteq> A"
    unfolding getReachableNodes_def by (rule getReachableNodes_loop_sound[OF 1 2 3])
  then show ?thesis using assms by (auto simp: A_def)
qed

subsection \<open>The public ids\<close>

lemma idMapping_snoc: "idMapping (ns @ [n]) = (idMapping ns)(internalId n \<mapsto> length ns)"
  by (simp add: idMapping_def)

lemma idMapping_Nil: "idMapping [] = Map.empty"
  by (simp add: idMapping_def)

lemma idMapping_Some:
  "idMapping ns x = Some i \<Longrightarrow> i < length ns \<and> internalId (ns ! i) = x"
proof (induction ns arbitrary: i rule: rev_induct)
  case Nil
  then show ?case by (simp add: idMapping_Nil)
next
  case (snoc n ns)
  show ?case
  proof (cases "x = internalId n")
    case True
    then have "i = length ns" using snoc.prems by (simp add: idMapping_snoc)
    then show ?thesis using True by simp
  next
    case False
    then have "idMapping ns x = Some i" using snoc.prems by (simp add: idMapping_snoc)
    then have "i < length ns \<and> internalId (ns ! i) = x" by (rule snoc.IH)
    then show ?thesis by (simp add: nth_append)
  qed
qed

lemma idMapping_None: "(idMapping ns x = None) = (x \<notin> internalId ` set ns)"
proof (induction ns rule: rev_induct)
  case Nil
  then show ?case by (simp add: idMapping_Nil)
next
  case (snoc n ns)
  then show ?case by (auto simp: idMapping_snoc)
qed

lemma idMapping_nth:
  "distinct (map internalId ns) \<Longrightarrow> i < length ns \<Longrightarrow> idMapping ns (internalId (ns ! i)) = Some i"
proof (induction ns rule: rev_induct)
  case Nil
  then show ?case by simp
next
  case (snoc n ns)
  show ?case
  proof (cases "i = length ns")
    case True
    then show ?thesis by (simp add: idMapping_snoc)
  next
    case False
    then have i: "i < length ns" using snoc.prems(2) by simp
    then have "internalId (ns ! i) \<in> internalId ` set ns" by simp
    then have "internalId (ns ! i) \<noteq> internalId n" using snoc.prems(1) by auto
    then show ?thesis using snoc.IH i snoc.prems(1) by (simp add: idMapping_snoc nth_append)
  qed
qed

lemma internalId_sortedNodes:
  "map internalId (filter (\<lambda>o'. internalId o' \<in> R)
          (map (\<lambda>(name, version, n). \<lparr>internalId = e_id n, s_name = name, s_version = version\<rparr>)
             (all_entries g))) = filter (\<lambda>i. i \<in> R) (entry_ids g)"
  by (induction "all_entries g" arbitrary: g) (auto simp: entry_ids_def filter_map comp_def split_def)


lemma distinct_map_sort_key:
  "distinct (map f (sort_key k xs)) = distinct (map f xs)"
  by (simp add: distinct_map)

lemma sortedNodes_ids:
  "set (map internalId (sortedNodes g R)) = set R \<inter> set (entry_ids g)"
  "distinct (entry_ids g) \<Longrightarrow> distinct (map internalId (sortedNodes g R))"
proof -
  have s: "set (map internalId (sortedNodes g R)) =
        set (map internalId (filter (\<lambda>o'. internalId o' \<in> set R)
          (map (\<lambda>(name, version, n). \<lparr>internalId = e_id n, s_name = name, s_version = version\<rparr>)
             (all_entries g))))"
    unfolding sortedNodes_def by simp
  show "set (map internalId (sortedNodes g R)) = set R \<inter> set (entry_ids g)"
    unfolding s internalId_sortedNodes by auto
  assume d: "distinct (entry_ids g)"
  have "distinct (map internalId (filter (\<lambda>o'. internalId o' \<in> set R)
          (map (\<lambda>(name, version, n). \<lparr>internalId = e_id n, s_name = name, s_version = version\<rparr>)
             (all_entries g))))"
    unfolding internalId_sortedNodes using d by simp
  then show "distinct (map internalId (sortedNodes g R))"
    unfolding sortedNodes_def by (simp only: distinct_map_sort_key)
qed

lemma sortedNodes_memD:
  assumes "n \<in> set (sortedNodes g R)"
  shows "\<exists>e. (s_name n, s_version n, e) \<in> set (all_entries g) \<and> internalId n = e_id e \<and>
             internalId n \<in> set R"
  using assms by (auto simp: sortedNodes_def)

lemma sortedNodes_memI:
  assumes "(nm, ver, e) \<in> set (all_entries g)" and "e_id e \<in> set R"
  shows "\<lparr>internalId = e_id e, s_name = nm, s_version = ver\<rparr> \<in> set (sortedNodes g R)"
  using assms by (force simp: sortedNodes_def)

lemma toJson_nodes:
  "dg_nodes (toJson g) =
     map (\<lambda>n. \<lparr>name = s_name n, version = s_version n,
               id = idMapping (sortedNodes g (getReachableNodes g)) (internalId n)\<rparr>)
       (sortedNodes g (getReachableNodes g))"
  by (simp add: toJson_def Let_def)

lemma toJson_links:
  "dg_links (toJson g) =
     sort_key (\<lambda>l. (sourceId l, targetId l))
       (concat (map (\<lambda>source.
            map (\<lambda>target. \<lparr>sourceId = idMapping (sortedNodes g (getReachableNodes g)) source,
                            targetId = idMapping (sortedNodes g (getReachableNodes g)) target\<rparr>)
              (get_or_empty (links g) source))
          (filter (\<lambda>k. k \<in> set (getReachableNodes g)) (map fst (links g)))))"
  by (simp add: toJson_def Let_def)

lemma toJson_nodes_sorted: "sorted (map (\<lambda>n. (name n, version n)) (dg_nodes (toJson g)))"
proof -
  have "map (\<lambda>n. (name n, version n)) (dg_nodes (toJson g)) =
        map (\<lambda>n. (s_name n, s_version n)) (sortedNodes g (getReachableNodes g))"
    by (simp add: toJson_nodes comp_def)
  then show ?thesis by (simp add: sortedNodes_def)
qed

lemma toJson_links_sorted: "sorted (map (\<lambda>l. (sourceId l, targetId l)) (dg_links (toJson g)))"
  by (simp add: toJson_links)

lemma toJson_ids:
  assumes "distinct (entry_ids g)"
  shows "map id (dg_nodes (toJson g)) = map Some [0..<length (dg_nodes (toJson g))]"
proof -
  let ?ns = "sortedNodes g (getReachableNodes g)"
  have d: "distinct (map internalId ?ns)" using assms by (rule sortedNodes_ids(2))
  show ?thesis
  proof (rule nth_equalityI)
    show "length (map id (dg_nodes (toJson g))) = length (map Some [0..<length (dg_nodes (toJson g))])"
      by simp
    fix i assume "i < length (map id (dg_nodes (toJson g)))"
    then have i: "i < length ?ns" by (simp add: toJson_nodes)
    then show "map id (dg_nodes (toJson g)) ! i = map Some [0..<length (dg_nodes (toJson g))] ! i"
      using idMapping_nth[OF d i] by (simp add: toJson_nodes)
  qed
qed

end
